theory Spec2Isabelle
  imports Main
begin

section \<open>The quiz-creation state manager (useQuizCreation)\<close>

text \<open>
  A shallow embedding of the composable \<open>useQuizCreation\<close>. JavaScript objects
  become records, arrays become lists, the exercise cache (a plain object keyed by
  exercise id) becomes a map, and every \<open>throw\<close> becomes a value: an operation
  returns \<open>Inr s'\<close> when it completes and \<open>Inl (e, s')\<close> when it throws \<open>e\<close>,
  where \<open>s'\<close> holds the assignments made before the throw.
\<close>

subsection \<open>Data model\<close>

datatype error = TypeError | Error

record QuizQuestion =
  exercise_id :: string
  question_id :: string
  counter_in_exercise :: nat
  title :: string
  item :: string

record Exercise =
  ex_id :: string
  ex_title :: string
  assessment_item_ids :: "string list"

record QuizSection =
  section_id :: string
  section_title :: string
  description :: string
  questions :: "QuizQuestion list"
  section_fixed_order :: bool

record Quiz =
  quiz_id :: "string option"
  quiz_title :: string
  assignments :: "string list"
  learner_ids :: "string list"
  collection :: string
  learners_see_fixed_order :: bool
  instant_report_visibility :: bool
  draft :: bool
  active :: bool
  archive :: bool
  question_sources :: "QuizSection list"

text \<open>
  The argument of \<open>updateSection\<close> without its \<open>sectionIndex\<close>: each property may
  be absent (\<open>None\<close>). \<open>resourcePool\<close> is the one property that is not a section
  field.
\<close>

record SectionUpdates =
  u_section_id :: "string option"
  u_section_title :: "string option"
  u_description :: "string option"
  u_questions :: "QuizQuestion list option"
  u_section_fixed_order :: "bool option"
  u_resourcePool :: "Exercise list option"

record QuizUpdates =
  u_quiz_id :: "string option option"
  u_quiz_title :: "string option"
  u_assignments :: "string list option"
  u_learner_ids :: "string list option"
  u_collection :: "string option"
  u_learners_see_fixed_order :: "bool option"
  u_instant_report_visibility :: "bool option"
  u_draft :: "bool option"
  u_active :: "bool option"
  u_archive :: "bool option"
  u_question_sources :: "QuizSection list option"

text \<open>
  What the module imports and this development does not have: the constant
  \<open>MAX_QUESTIONS_PER_QUIZ_SECTION\<close>, the object-spec validators
  (\<open>validateObject(q, QuizQuestion)\<close> and \<open>validateObject(quiz, Quiz)\<close>) and the two
  sources of randomness (\<open>shuffled\<close>, and the seeded shuffle inside
  \<open>selectQuestions\<close>). They are parameters of every operation.
\<close>

record env =
  MAX_QUESTIONS_PER_QUIZ_SECTION :: nat
  validateQuestion :: "QuizQuestion \<Rightarrow> bool"
  validateQuiz :: "QuizUpdates \<Rightarrow> bool"
  shuffled :: "string list \<Rightarrow> string list"
  seededShuffle :: "nat \<Rightarrow> QuizQuestion list \<Rightarrow> QuizQuestion list"

text \<open>
  The local state of the composable: the refs \<open>quizHasChanged\<close>, \<open>_quiz\<close>,
  \<open>_selectedQuestionIds\<close>, \<open>_questionItemsToReplace\<close>, the object \<open>_exerciseMap\<close>,
  and the route parameter that \<open>activeSectionIndex\<close> reads.
\<close>

record state =
  quizHasChanged :: bool
  quiz :: Quiz
  selectedQuestionIds :: "string list"
  exerciseMap :: "string \<rightharpoonup> Exercise"
  questionItemsToReplace :: "string list option"
  activeSectionIndex :: nat

type_synonym outcome = "(error \<times> state) + state"

subsection \<open>Array helpers\<close>

text \<open>\<open>xs[i]\<close> in JavaScript: \<open>undefined\<close> out of range.\<close>

definition at_index :: "'a list \<Rightarrow> nat \<Rightarrow> 'a option" where
  "at_index xs i = (if i < length xs then Some (xs ! i) else None)"

text \<open>lodash \<open>uniq\<close>: the first occurrence of each element is kept.\<close>

fun uniq :: "'a list \<Rightarrow> 'a list" where
  "uniq [] = []"
| "uniq (x # xs) = x # uniq (filter (\<lambda>y. y \<noteq> x) xs)"

subsection \<open>Computed properties\<close>

definition allSections :: "state \<Rightarrow> QuizSection list" where
  "allSections s = question_sources (quiz s)"

definition activeSection :: "state \<Rightarrow> QuizSection option" where
  "activeSection s = at_index (allSections s) (activeSectionIndex s)"

definition activeQuestions :: "state \<Rightarrow> QuizQuestion list" where
  "activeQuestions s = (case activeSection s of None \<Rightarrow> [] | Some sec \<Rightarrow> questions sec)"

definition allQuestionsInQuiz :: "state \<Rightarrow> QuizQuestion list" where
  "allQuestionsInQuiz s = foldl (\<lambda>acc section. acc @ questions section) [] (allSections s)"

subsection \<open>Replacing questions\<close>

text \<open>
  \<open>baseQuestions.map(question => questionItemsToReplace.includes(question.item)
  ? replacements.shift() : question)\<close>. \<open>shift\<close> on an empty array returns
  \<open>undefined\<close>, so the elements of the result are optional.
\<close>

fun replaceMap :: "QuizQuestion list \<Rightarrow> string list \<Rightarrow> QuizQuestion list \<Rightarrow> QuizQuestion option list" where
  "replaceMap [] its reps = []"
| "replaceMap (q # qs) its reps =
     (if item q \<in> set its
      then (case reps of
              [] \<Rightarrow> None # replaceMap qs its []
            | r # rs \<Rightarrow> Some r # replaceMap qs its rs)
      else Some q # replaceMap qs its reps)"

definition replaceQuestions ::
  "QuizQuestion list \<Rightarrow> string list \<Rightarrow> QuizQuestion list \<Rightarrow> error + QuizQuestion option list" where
  "replaceQuestions baseQuestions its replacements =
     (if length its \<noteq> length replacements then Inl TypeError
      else Inr (replaceMap baseQuestions its replacements))"

text \<open>The number of questions of a list whose item is listed for replacement.\<close>

definition listed_count :: "string list \<Rightarrow> QuizQuestion list \<Rightarrow> nat" where
  "listed_count its qs = length (filter (\<lambda>q. item q \<in> set its) qs)"

subsection \<open>Objects with defaults\<close>

text \<open>
  Modelled from the spec: \<open>quizCreationSpecs.js\<close> and \<open>objectWithDefaults\<close> are not
  available. \<open>objectWithDefaults({}, QuizSection)\<close> is a fresh section: a named,
  ordered subdivision of a quiz, with an empty title and no questions yet. Its
  \<open>section_id\<close> is generated at the call and is an argument here.
\<close>

definition defaultQuizSection :: "string \<Rightarrow> QuizSection" where
  "defaultQuizSection sid =
     \<lparr>section_id = sid, section_title = [], description = [], questions = [],
      section_fixed_order = False\<rparr>"

text \<open>
  Modelled from the spec: \<open>objectWithDefaults({ collection, assignments }, Quiz)\<close>, with
  the \<open>Quiz\<close> object spec not available: a quiz aggregate that has the given
  collection and assignment targets, no id, no sections, and default flags.
\<close>

definition defaultQuiz :: "string \<Rightarrow> string list \<Rightarrow> Quiz" where
  "defaultQuiz c as =
     \<lparr>quiz_id = None, quiz_title = [], assignments = as, learner_ids = [],
      collection = c, learners_see_fixed_order = False, instant_report_visibility = True,
      draft = True, active = False, archive = False, question_sources = []\<rparr>"

subsection \<open>Spreading updates over an object\<close>

text \<open>\<open>{ ...targetSection, ...updates }\<close>, after \<open>resourcePool\<close> has been deleted.\<close>

definition spreadSection :: "QuizSection \<Rightarrow> SectionUpdates \<Rightarrow> QuizSection" where
  "spreadSection t u =
     \<lparr>section_id = (case u_section_id u of None \<Rightarrow> section_id t | Some v \<Rightarrow> v),
      section_title = (case u_section_title u of None \<Rightarrow> section_title t | Some v \<Rightarrow> v),
      description = (case u_description u of None \<Rightarrow> description t | Some v \<Rightarrow> v),
      questions = (case u_questions u of None \<Rightarrow> questions t | Some v \<Rightarrow> v),
      section_fixed_order =
        (case u_section_fixed_order u of None \<Rightarrow> section_fixed_order t | Some v \<Rightarrow> v)\<rparr>"

text \<open>\<open>{ ...get(_quiz), ...updates }\<close>.\<close>

definition spreadQuiz :: "Quiz \<Rightarrow> QuizUpdates \<Rightarrow> Quiz" where
  "spreadQuiz q u =
     \<lparr>quiz_id = (case u_quiz_id u of None \<Rightarrow> quiz_id q | Some v \<Rightarrow> v),
      quiz_title = (case u_quiz_title u of None \<Rightarrow> quiz_title q | Some v \<Rightarrow> v),
      assignments = (case u_assignments u of None \<Rightarrow> assignments q | Some v \<Rightarrow> v),
      learner_ids = (case u_learner_ids u of None \<Rightarrow> learner_ids q | Some v \<Rightarrow> v),
      collection = (case u_collection u of None \<Rightarrow> collection q | Some v \<Rightarrow> v),
      learners_see_fixed_order =
        (case u_learners_see_fixed_order u of None \<Rightarrow> learners_see_fixed_order q | Some v \<Rightarrow> v),
      instant_report_visibility =
        (case u_instant_report_visibility u of None \<Rightarrow> instant_report_visibility q | Some v \<Rightarrow> v),
      draft = (case u_draft u of None \<Rightarrow> draft q | Some v \<Rightarrow> v),
      active = (case u_active u of None \<Rightarrow> active q | Some v \<Rightarrow> v),
      archive = (case u_archive u of None \<Rightarrow> archive q | Some v \<Rightarrow> v),
      question_sources =
        (case u_question_sources u of None \<Rightarrow> question_sources q | Some v \<Rightarrow> v)\<rparr>"

definition noQuizUpdates :: QuizUpdates where
  "noQuizUpdates =
     \<lparr>u_quiz_id = None, u_quiz_title = None, u_assignments = None, u_learner_ids = None,
      u_collection = None, u_learners_see_fixed_order = None,
      u_instant_report_visibility = None, u_draft = None, u_active = None, u_archive = None,
      u_question_sources = None\<rparr>"

text \<open>The whole quiz, as the object given to \<open>validateQuiz\<close> by \<open>saveQuiz\<close>.\<close>

definition wholeQuiz :: "Quiz \<Rightarrow> QuizUpdates" where
  "wholeQuiz q =
     \<lparr>u_quiz_id = Some (quiz_id q), u_quiz_title = Some (quiz_title q),
      u_assignments = Some (assignments q), u_learner_ids = Some (learner_ids q),
      u_collection = Some (collection q),
      u_learners_see_fixed_order = Some (learners_see_fixed_order q),
      u_instant_report_visibility = Some (instant_report_visibility q),
      u_draft = Some (draft q), u_active = Some (active q), u_archive = Some (archive q),
      u_question_sources = Some (question_sources q)\<rparr>"

subsection \<open>Quiz and section management\<close>

definition updateQuiz :: "env \<Rightarrow> state \<Rightarrow> QuizUpdates \<Rightarrow> outcome" where
  "updateQuiz env s updates =
     (let s1 = s\<lparr>quizHasChanged := True\<rparr> in
      if \<not> validateQuiz env updates then Inl (TypeError, s1)
      else Inr (s1\<lparr>quiz := spreadQuiz (quiz s1) updates\<rparr>))"

text \<open>\<open>for (const exercise of resourcePool) _exerciseMap[exercise.id] = exercise\<close>.\<close>

definition cacheExercises :: "Exercise list \<Rightarrow> (string \<rightharpoonup> Exercise) \<Rightarrow> (string \<rightharpoonup> Exercise)" where
  "cacheExercises pool m = foldl (\<lambda>acc exercise. acc(ex_id exercise \<mapsto> exercise)) m pool"

definition updateSection :: "env \<Rightarrow> state \<Rightarrow> nat \<Rightarrow> SectionUpdates \<Rightarrow> outcome" where
  "updateSection env s sectionIndex updates =
     (let s1 = s\<lparr>quizHasChanged := True\<rparr> in
      case at_index (allSections s1) sectionIndex of
        None \<Rightarrow> Inl (TypeError, s1)
      | Some targetSection \<Rightarrow>
          if (case u_questions updates of
                None \<Rightarrow> False
              | Some qs \<Rightarrow>
                  length qs > MAX_QUESTIONS_PER_QUIZ_SECTION env
                  \<or> list_ex (\<lambda>q. \<not> validateQuestion env q) qs)
          then Inl (TypeError, s1)
          else
            let s2 = (case u_resourcePool updates of
                        None \<Rightarrow> s1
                      | Some pool \<Rightarrow> s1\<lparr>exerciseMap := cacheExercises pool (exerciseMap s1)\<rparr>);
                secs = allSections s2
            in Inr (s2\<lparr>quiz := (quiz s2)\<lparr>question_sources :=
                        take sectionIndex secs @ [spreadSection targetSection updates]
                        @ drop (sectionIndex + 1) secs\<rparr>\<rparr>))"

definition questionsUpdate :: "QuizQuestion list \<Rightarrow> Exercise list option \<Rightarrow> SectionUpdates" where
  "questionsUpdate qs pool =
     \<lparr>u_section_id = None, u_section_title = None, u_description = None,
      u_questions = Some qs, u_section_fixed_order = None, u_resourcePool = pool\<rparr>"

text \<open>
  \<open>updateSection\<close> called with the array that \<open>_replaceQuestions\<close> returned, which can
  hold \<open>undefined\<close>.
  Modelled from the spec: \<open>validateObject\<close> is not available; an \<open>undefined\<close> element
  is not a valid QuizQuestion, so such an array makes \<open>updateSection\<close> throw its
  TypeError, after it has set \<open>quizHasChanged\<close>.
\<close>

definition updateSectionReplaced ::
  "env \<Rightarrow> state \<Rightarrow> nat \<Rightarrow> QuizQuestion option list \<Rightarrow> Exercise list option \<Rightarrow> outcome" where
  "updateSectionReplaced env s sectionIndex qs pool =
     (case those qs of
        None \<Rightarrow> Inl (TypeError, s\<lparr>quizHasChanged := True\<rparr>)
      | Some qs' \<Rightarrow> updateSection env s sectionIndex (questionsUpdate qs' pool))"

definition addSection :: "env \<Rightarrow> state \<Rightarrow> string \<Rightarrow> outcome" where
  "addSection env s sid =
     (let newSection = defaultQuizSection sid in
      updateQuiz env s
        (noQuizUpdates\<lparr>u_question_sources := Some (question_sources (quiz s) @ [newSection])\<rparr>))"

definition removeSection :: "env \<Rightarrow> state \<Rightarrow> nat \<Rightarrow> string \<Rightarrow> outcome" where
  "removeSection env s sectionIndex sid =
     (case at_index (allSections s) sectionIndex of
        None \<Rightarrow> Inl (Error, s)
      | Some _ \<Rightarrow>
          let updatedSections =
                take sectionIndex (allSections s) @ drop (sectionIndex + 1) (allSections s)
          in case updateQuiz env s (noQuizUpdates\<lparr>u_question_sources := Some updatedSections\<rparr>) of
               Inl thrown \<Rightarrow> Inl thrown
             | Inr s1 \<Rightarrow>
                 if length (allSections s1) = 0 then addSection env s1 sid else Inr s1)"

text \<open>
  \<open>initializeQuiz(collection, quizId)\<close>. The second argument here is \<open>None\<close> for
  \<open>quizId === 'new'\<close> and otherwise the exam and exercises that the two awaited
  fetches delivered.
\<close>

definition initializeQuiz ::
  "env \<Rightarrow> state \<Rightarrow> string \<Rightarrow> (Quiz \<times> Exercise list) option \<Rightarrow> string \<Rightarrow> outcome" where
  "initializeQuiz env s c fetched sid =
     (case fetched of
        None \<Rightarrow>
          (case addSection env (s\<lparr>quiz := defaultQuiz c [c]\<rparr>) sid of
             Inl thrown \<Rightarrow> Inl thrown
           | Inr s2 \<Rightarrow> Inr (s2\<lparr>quizHasChanged := False\<rparr>))
      | Some (q, exercises) \<Rightarrow>
          let s1 = s\<lparr>exerciseMap := cacheExercises exercises (exerciseMap s), quiz := q\<rparr> in
          if length (allSections s1) = 0
          then (case addSection env s1 sid of
                  Inl thrown \<Rightarrow> Inl thrown
                | Inr s2 \<Rightarrow> Inr (s2\<lparr>quizHasChanged := False\<rparr>))
          else Inr (s1\<lparr>quizHasChanged := False\<rparr>))"

subsection \<open>Selecting questions from exercises\<close>

text \<open>
  Modelled from the spec: \<open>utils/selectQuestions.js\<close> is not available. A question
  refers to one assessment item of an exercise, and its \<open>item\<close> is the composite key
  \<open>exercise_id:assessment_item_id\<close>; \<open>exerciseToQuestionArray\<close> lists the questions
  of an exercise in the order of its assessment items. The title and the counter of
  a question (read by \<open>displayQuestionTitle\<close>) are taken to be the title of the
  exercise and the position of the assessment item.
\<close>

definition compositeItem :: "string \<Rightarrow> string \<Rightarrow> string" where
  "compositeItem eid aid = eid @ '':'' @ aid"

definition exerciseToQuestionArray :: "Exercise \<Rightarrow> QuizQuestion list" where
  "exerciseToQuestionArray exercise =
     map (\<lambda>(i, aid).
            \<lparr>exercise_id = ex_id exercise, question_id = aid, counter_in_exercise = i + 1,
             title = ex_title exercise, item = compositeItem (ex_id exercise) aid\<rparr>)
         (enumerate 0 (assessment_item_ids exercise))"

text \<open>
  Modelled from the spec: \<open>selectQuestions\<close> is not available. It is a randomized
  sampling routine with exclusion filtering: the pool is the questions of the given
  exercises whose item is not excluded; selecting N questions from a pool of size
  less than N throws; otherwise N questions of the shuffled pool are returned.
\<close>

definition questionPool :: "Exercise list \<Rightarrow> string list \<Rightarrow> QuizQuestion list" where
  "questionPool exercises excluded =
     filter (\<lambda>q. item q \<notin> set excluded) (concat (map exerciseToQuestionArray exercises))"

definition selectQuestions ::
  "env \<Rightarrow> nat \<Rightarrow> Exercise list \<Rightarrow> nat \<Rightarrow> string list \<Rightarrow> error + QuizQuestion list" where
  "selectQuestions env numQuestions exercises seed excluded =
     (let pool = questionPool exercises excluded in
      if length pool < numQuestions then Inl Error
      else Inr (take numQuestions (seededShuffle env seed pool)))"

subsection \<open>Adding questions to a section\<close>

text \<open>
  \<open>questionCount\<close> is \<open>None\<close> when it is missing; \<open>seed\<close> is the value of
  \<open>Math.floor(Math.random() * 1000)\<close> at the call.
\<close>

definition addQuestionsToSectionFromResources ::
  "env \<Rightarrow> state \<Rightarrow> nat \<Rightarrow> Exercise list option \<Rightarrow> int option \<Rightarrow> nat \<Rightarrow> outcome" where
  "addQuestionsToSectionFromResources env s sectionIndex resourcePool questionCount seed =
     (case at_index (allSections s) sectionIndex of
        None \<Rightarrow> Inl (TypeError, s)
      | Some targetSection \<Rightarrow>
          (case resourcePool of
             None \<Rightarrow> Inl (TypeError, s)
           | Some pool \<Rightarrow>
               if length pool = 0 then Inl (TypeError, s)
               else
                 (case questionCount of
                    None \<Rightarrow> Inl (TypeError, s)
                  | Some n \<Rightarrow>
                      if n = 0 \<or> n < 1 then Inl (TypeError, s)
                      else
                        (case selectQuestions env (nat n) pool seed
                                (map item (allQuestionsInQuiz s)) of
                           Inl e \<Rightarrow> Inl (e, s)
                         | Inr newQuestions \<Rightarrow>
                             updateSection env s sectionIndex
                               (questionsUpdate (questions targetSection @ newQuestions)
                                  (Some pool))))))"

definition addQuestionsToSection ::
  "env \<Rightarrow> state \<Rightarrow> nat \<Rightarrow> QuizQuestion list option \<Rightarrow> Exercise list option
     \<Rightarrow> string list option \<Rightarrow> outcome" where
  "addQuestionsToSection env s sectionIndex qs resources toReplace =
     (case at_index (allSections s) sectionIndex of
        None \<Rightarrow> Inl (TypeError, s)
      | Some targetSection \<Rightarrow>
          (case qs of
             None \<Rightarrow> Inl (TypeError, s)
           | Some qs' \<Rightarrow>
               if length qs' = 0 then Inl (TypeError, s)
               else
                 let newQuestions =
                       filter (\<lambda>q. item q \<notin> set (map item (questions targetSection))) qs'
                 in (case toReplace of
                       None \<Rightarrow>
                         updateSection env s sectionIndex
                           (questionsUpdate (questions targetSection @ newQuestions) resources)
                     | Some its \<Rightarrow>
                         if length its = 0
                         then updateSection env s sectionIndex
                                (questionsUpdate (questions targetSection @ newQuestions) resources)
                         else (case replaceQuestions (questions targetSection) its newQuestions of
                                 Inl e \<Rightarrow> Inl (e, s)
                               | Inr questionsToAdd \<Rightarrow>
                                   updateSectionReplaced env s sectionIndex questionsToAdd
                                     resources))))"

subsection \<open>Selection\<close>

definition addQuestionsToSelection :: "state \<Rightarrow> string list \<Rightarrow> state" where
  "addQuestionsToSelection s ids = s\<lparr>selectedQuestionIds := uniq (selectedQuestionIds s @ ids)\<rparr>"

definition removeQuestionsFromSelection :: "state \<Rightarrow> string list \<Rightarrow> state" where
  "removeQuestionsFromSelection s ids =
     s\<lparr>selectedQuestionIds := filter (\<lambda>i. i \<notin> set ids) (selectedQuestionIds s)\<rparr>"

definition clearSelectedQuestions :: "state \<Rightarrow> state" where
  "clearSelectedQuestions s = s\<lparr>selectedQuestionIds := []\<rparr>"

definition setQuestionItemsToReplace :: "state \<Rightarrow> string list option \<Rightarrow> state" where
  "setQuestionItemsToReplace s its = s\<lparr>questionItemsToReplace := its\<rparr>"

text \<open>
  A route change of the \<open>sectionIndex\<close> parameter; the watcher on
  \<open>activeSectionIndex\<close> clears the selection when the index changes.
\<close>

definition navigate :: "state \<Rightarrow> nat \<Rightarrow> state" where
  "navigate s i =
     (if i = activeSectionIndex s then s
      else s\<lparr>activeSectionIndex := i, selectedQuestionIds := []\<rparr>)"

text \<open>Destructuring \<open>get(activeSection)\<close> throws a TypeError when there is no active section.\<close>

definition deleteActiveSelectedQuestions :: "env \<Rightarrow> state \<Rightarrow> outcome" where
  "deleteActiveSelectedQuestions env s =
     (case activeSection s of
        None \<Rightarrow> Inl (TypeError, s)
      | Some sec \<Rightarrow>
          let qs = filter (\<lambda>q. item q \<notin> set (selectedQuestionIds s)) (questions sec)
          in (case updateSection env s (activeSectionIndex s) (questionsUpdate qs None) of
                Inl thrown \<Rightarrow> Inl thrown
              | Inr s1 \<Rightarrow> Inr (s1\<lparr>selectedQuestionIds := []\<rparr>)))"

subsection \<open>Unused questions and automatic replacement\<close>

text \<open>
  \<open>activeResourceMap\<close>: one key per exercise id of the active questions, in the order
  of first use, holding \<open>_exerciseMap[exercise_id]\<close>, which is \<open>undefined\<close> for an
  exercise that was never cached.
\<close>

definition activeResourceMap :: "state \<Rightarrow> (string \<times> Exercise option) list" where
  "activeResourceMap s =
     map (\<lambda>eid. (eid, exerciseMap s eid)) (uniq (map exercise_id (activeQuestions s)))"

definition unusedQuestions :: "state \<Rightarrow> Exercise \<Rightarrow> string list" where
  "unusedQuestions s exercise =
     filter (\<lambda>qid. find (\<lambda>q. item q = qid) (allQuestionsInQuiz s) = None)
       (map (\<lambda>aid. compositeItem (ex_id exercise) aid) (assessment_item_ids exercise))"

text \<open>
  \<open>activeExercisesUnusedQuestionsMap\<close>. Reading \<open>exercise.assessmentmetadata\<close> of an
  \<open>undefined\<close> value of the resource map throws a TypeError.
\<close>

definition activeExercisesUnusedQuestionsMap :: "state \<Rightarrow> error + (string \<rightharpoonup> string list)" where
  "activeExercisesUnusedQuestionsMap s =
     (case those (map snd (activeResourceMap s)) of
        None \<Rightarrow> Inl TypeError
      | Some exercises \<Rightarrow>
          Inr (foldl (\<lambda>m exercise. m(ex_id exercise \<mapsto> unusedQuestions s exercise))
                 Map.empty exercises))"

text \<open>
  The \<open>exercises.forEach\<close> of \<open>autoReplaceQuestions\<close>, which fills
  \<open>shuffledExercisesUnusedQuestionsMap\<close>. \<open>exerciseQuestions.find\<close> gives \<open>undefined\<close>
  for an item that the exercise does not have.
\<close>

fun shuffleUnused ::
  "env \<Rightarrow> state \<Rightarrow> string list \<Rightarrow> (string \<rightharpoonup> QuizQuestion option list)
     \<Rightarrow> error + (string \<rightharpoonup> QuizQuestion option list)" where
  "shuffleUnused env s [] m = Inr m"
| "shuffleUnused env s (exerciseId # rest) m =
     (case activeExercisesUnusedQuestionsMap s of
        Inl e \<Rightarrow> Inl e
      | Inr um \<Rightarrow>
          (case um exerciseId of
             None \<Rightarrow> Inl Error
           | Some unused \<Rightarrow>
               if length unused = 0 then Inl Error
               else
                 (case exerciseMap s exerciseId of
                    None \<Rightarrow> Inl TypeError
                  | Some exercise \<Rightarrow>
                      let shuffledQuestionItems = shuffled env unused;
                          exerciseQuestions = exerciseToQuestionArray exercise;
                          shuffledQuestions =
                            map (\<lambda>it. find (\<lambda>q. item q = it) exerciseQuestions)
                              shuffledQuestionItems
                      in shuffleUnused env s rest (m(exerciseId \<mapsto> shuffledQuestions)))))"

text \<open>
  The \<open>questionsToReplace.map\<close> of \<open>autoReplaceQuestions\<close>: each question pops the
  last element of the list of its exercise; an empty list or an \<open>undefined\<close> element
  throws an Error.
\<close>

fun popReplacements ::
  "(string \<rightharpoonup> QuizQuestion option list) \<Rightarrow> QuizQuestion list \<Rightarrow> error + QuizQuestion list" where
  "popReplacements m [] = Inr []"
| "popReplacements m (question # rest) =
     (case m (exercise_id question) of
        None \<Rightarrow> Inl TypeError
      | Some unused \<Rightarrow>
          if unused = [] then Inl Error
          else
            (case last unused of
               None \<Rightarrow> Inl Error
             | Some newQuestion \<Rightarrow>
                 (case popReplacements (m(exercise_id question \<mapsto> butlast unused)) rest of
                    Inl e \<Rightarrow> Inl e
                  | Inr others \<Rightarrow> Inr (newQuestion # others))))"

definition autoReplaceQuestions :: "env \<Rightarrow> state \<Rightarrow> string list \<Rightarrow> outcome" where
  "autoReplaceQuestions env s questionItems =
     (if length questionItems = 0 then Inr s
      else
        let questionsToReplace =
              List.map_filter (\<lambda>questionItem. find (\<lambda>q. item q = questionItem) (activeQuestions s))
                questionItems;
            exercises = uniq (map exercise_id questionsToReplace)
        in (case shuffleUnused env s exercises Map.empty of
              Inl e \<Rightarrow> Inl (e, s)
            | Inr shuffledMap \<Rightarrow>
                (case popReplacements shuffledMap questionsToReplace of
                   Inl e \<Rightarrow> Inl (e, s)
                 | Inr newQuestions \<Rightarrow>
                     (case replaceQuestions (activeQuestions s) (map item questionsToReplace)
                             newQuestions of
                        Inl e \<Rightarrow> Inl (e, s)
                      | Inr questionsToAdd \<Rightarrow>
                          updateSectionReplaced env s (activeSectionIndex s) questionsToAdd
                            None))))"

subsection \<open>Saving\<close>

text \<open>The objects that \<open>saveQuiz\<close> builds: questions without \<open>item\<close>, sections without
  \<open>section_id\<close>, and \<open>finalQuiz\<close> with the fields of \<open>fieldsToSave\<close>.\<close>

record SavedQuestion =
  sq_exercise_id :: string
  sq_question_id :: string
  sq_counter_in_exercise :: nat
  sq_title :: string

record SavedSection =
  ss_section_title :: string
  ss_description :: string
  ss_questions :: "SavedQuestion list"
  ss_section_fixed_order :: bool

record FinalQuiz =
  f_title :: string
  f_assignments :: "string list"
  f_learner_ids :: "string list"
  f_collection :: string
  f_learners_see_fixed_order :: bool
  f_instant_report_visibility :: bool
  f_draft :: bool
  f_active :: bool
  f_archive :: bool
  f_question_sources :: "SavedSection list option"

record SaveRequest =
  req_id :: "string option"
  req_data :: FinalQuiz

definition questionToSave :: "QuizQuestion \<Rightarrow> SavedQuestion" where
  "questionToSave q =
     \<lparr>sq_exercise_id = exercise_id q, sq_question_id = question_id q,
      sq_counter_in_exercise = counter_in_exercise q, sq_title = title q\<rparr>"

definition sectionToSave :: "QuizSection \<Rightarrow> SavedSection" where
  "sectionToSave section =
     \<lparr>ss_section_title = section_title section, ss_description = description section,
      ss_questions = map questionToSave (questions section),
      ss_section_fixed_order = section_fixed_order section\<rparr>"

definition finalQuiz :: "state \<Rightarrow> FinalQuiz" where
  "finalQuiz s =
     (let quizData = quiz s in
      \<lparr>f_title = quiz_title quizData, f_assignments = assignments quizData,
       f_learner_ids = learner_ids quizData, f_collection = collection quizData,
       f_learners_see_fixed_order = learners_see_fixed_order quizData,
       f_instant_report_visibility = instant_report_visibility quizData,
       f_draft = draft quizData, f_active = active quizData, f_archive = archive quizData,
       f_question_sources =
         (if draft quizData then Some (map sectionToSave (allSections s)) else None)\<rparr>)"

text \<open>
  The synchronous part of \<open>saveQuiz\<close>: the promise is rejected at once, or
  \<open>ExamResource.saveModel\<close> is called and its promise is awaited.
\<close>

datatype saving = Rejected | Awaiting SaveRequest

definition saveQuiz :: "env \<Rightarrow> state \<Rightarrow> saving \<times> state" where
  "saveQuiz env s =
     (if \<not> validateQuiz env (wholeQuiz (quiz s)) then (Rejected, s)
      else (Awaiting \<lparr>req_id = quiz_id (quiz s), req_data = finalQuiz s\<rparr>, s))"

text \<open>The calls of \<open>ExamResource.saveModel\<close> that \<open>saveQuiz\<close> made.\<close>

fun saveCalls :: "saving \<Rightarrow> SaveRequest list" where
  "saveCalls Rejected = []"
| "saveCalls (Awaiting r) = [r]"

text \<open>
  The \<open>then\<close> callback, run when the save succeeded with an exam whose id is
  \<open>examId\<close>; \<open>id\<close> is the quiz id read when \<open>saveQuiz\<close> was called, and \<open>s\<close> is the
  state at the time the callback runs.
\<close>

definition saveQuizThen :: "env \<Rightarrow> state \<Rightarrow> string option \<Rightarrow> string \<Rightarrow> outcome" where
  "saveQuizThen env s id0 examId =
     (if id0 \<noteq> Some examId
      then (case updateQuiz env s (noQuizUpdates\<lparr>u_quiz_id := Some (Some examId)\<rparr>) of
              Inl thrown \<Rightarrow> Inl thrown
            | Inr s1 \<Rightarrow> Inr (s1\<lparr>quizHasChanged := False\<rparr>))
      else Inr (s\<lparr>quizHasChanged := False\<rparr>))"

subsection \<open>The operations as a transition system\<close>

datatype op =
    UpdateSection nat SectionUpdates
  | AddQuestionsToSectionFromResources nat "Exercise list option" "int option" nat
  | AddQuestionsToSection nat "QuizQuestion list option" "Exercise list option"
      "string list option"
  | AddSection string
  | RemoveSection nat string
  | InitializeQuiz string "(Quiz \<times> Exercise list) option" string
  | SaveQuiz
  | SaveQuizThen "string option" string
  | UpdateQuiz QuizUpdates
  | AddQuestionsToSelection "string list"
  | RemoveQuestionsFromSelection "string list"
  | ClearSelectedQuestions
  | SetQuestionItemsToReplace "string list option"
  | Navigate nat
  | DeleteActiveSelectedQuestions
  | AutoReplaceQuestions "string list"

fun step :: "env \<Rightarrow> state \<Rightarrow> op \<Rightarrow> outcome" where
  "step env s (UpdateSection i u) = updateSection env s i u"
| "step env s (AddQuestionsToSectionFromResources i pool n seed) =
     addQuestionsToSectionFromResources env s i pool n seed"
| "step env s (AddQuestionsToSection i qs resources its) =
     addQuestionsToSection env s i qs resources its"
| "step env s (AddSection sid) = addSection env s sid"
| "step env s (RemoveSection i sid) = removeSection env s i sid"
| "step env s (InitializeQuiz c fetched sid) = initializeQuiz env s c fetched sid"
| "step env s SaveQuiz = Inr (snd (saveQuiz env s))"
| "step env s (SaveQuizThen id0 examId) = saveQuizThen env s id0 examId"
| "step env s (UpdateQuiz u) = updateQuiz env s u"
| "step env s (AddQuestionsToSelection ids) = Inr (addQuestionsToSelection s ids)"
| "step env s (RemoveQuestionsFromSelection ids) = Inr (removeQuestionsFromSelection s ids)"
| "step env s ClearSelectedQuestions = Inr (clearSelectedQuestions s)"
| "step env s (SetQuestionItemsToReplace its) = Inr (setQuestionItemsToReplace s its)"
| "step env s (Navigate i) = Inr (navigate s i)"
| "step env s DeleteActiveSelectedQuestions = deleteActiveSelectedQuestions env s"
| "step env s (AutoReplaceQuestions its) = autoReplaceQuestions env s its"

text \<open>The state that an operation leaves behind, whether it returned or threw.\<close>

fun stateAfter :: "outcome \<Rightarrow> state" where
  "stateAfter (Inl (e, s)) = s"
| "stateAfter (Inr s) = s"

text \<open>Operations run in sequence; the run stops at the first throw.\<close>

fun run :: "env \<Rightarrow> state \<Rightarrow> op list \<Rightarrow> outcome" where
  "run env s [] = Inr s"
| "run env s (x # xs) =
     (case step env s x of
        Inl thrown \<Rightarrow> Inl thrown
      | Inr s1 \<Rightarrow> run env s1 xs)"

subsection \<open>Properties of states\<close>

text \<open>No two questions of the quiz have the same item.\<close>

definition uniqueItems :: "state \<Rightarrow> bool" where
  "uniqueItems s = distinct (map item (allQuestionsInQuiz s))"

text \<open>The items of the questions in the sections other than the one at index \<open>i\<close>.\<close>

definition otherItems :: "state \<Rightarrow> nat \<Rightarrow> string list" where
  "otherItems s i =
     map item (concat (map questions (take i (allSections s) @ drop (i + 1) (allSections s))))"

text \<open>Every section holds at most \<open>MAX_QUESTIONS_PER_QUIZ_SECTION\<close> questions.\<close>

definition sectionsBounded :: "env \<Rightarrow> state \<Rightarrow> bool" where
  "sectionsBounded env s =
     list_all (\<lambda>section. length (questions section) \<le> MAX_QUESTIONS_PER_QUIZ_SECTION env)
       (allSections s)"

text \<open>Every entry of the exercise cache is stored under the id of its exercise.\<close>

definition cacheKeyed :: "state \<Rightarrow> bool" where
  "cacheKeyed s = (\<forall>k exercise. exerciseMap s k = Some exercise \<longrightarrow> ex_id exercise = k)"

subsection \<open>Example data\<close>

definition exerciseA :: Exercise where
  "exerciseA = \<lparr>ex_id = ''E1'', ex_title = ''Fractions'', assessment_item_ids = [''a'', ''a2'']\<rparr>"

definition exerciseB :: Exercise where
  "exerciseB = \<lparr>ex_id = ''E2'', ex_title = ''Decimals'', assessment_item_ids = [''b'', ''b2'']\<rparr>"

definition questionA :: QuizQuestion where
  "questionA = \<lparr>exercise_id = ''E1'', question_id = ''a'', counter_in_exercise = 1,
                title = ''Fractions'', item = ''E1:a''\<rparr>"

definition questionA2 :: QuizQuestion where
  "questionA2 = \<lparr>exercise_id = ''E1'', question_id = ''a2'', counter_in_exercise = 2,
                 title = ''Fractions'', item = ''E1:a2''\<rparr>"

definition questionB :: QuizQuestion where
  "questionB = \<lparr>exercise_id = ''E2'', question_id = ''b'', counter_in_exercise = 1,
                title = ''Decimals'', item = ''E2:b''\<rparr>"

definition questionB2 :: QuizQuestion where
  "questionB2 = \<lparr>exercise_id = ''E2'', question_id = ''b2'', counter_in_exercise = 2,
                 title = ''Decimals'', item = ''E2:b2''\<rparr>"

text \<open>An environment whose validators accept every object and whose shuffles keep the
  order; at most two questions per section.\<close>

definition exampleEnv :: env where
  "exampleEnv =
     \<lparr>MAX_QUESTIONS_PER_QUIZ_SECTION = 2, validateQuestion = (\<lambda>q. True),
      validateQuiz = (\<lambda>u. True), shuffled = (\<lambda>xs. xs), seededShuffle = (\<lambda>seed xs. xs)\<rparr>"

text \<open>The state of the composable when it is created.\<close>

definition initialState :: state where
  "initialState =
     \<lparr>quizHasChanged = False, quiz = defaultQuiz [] [], selectedQuestionIds = [],
      exerciseMap = Map.empty, questionItemsToReplace = None, activeSectionIndex = 0\<rparr>"

text \<open>A new quiz for the class \<open>c1\<close>, and the same quiz with one question of each
  exercise in its section.\<close>

definition newQuizState :: state where
  "newQuizState = stateAfter (initializeQuiz exampleEnv initialState ''c1'' None ''s1'')"

definition twoQuestionState :: state where
  "twoQuestionState =
     stateAfter (addQuestionsToSection exampleEnv newQuizState 0
       (Some [questionA, questionB]) (Some [exerciseA, exerciseB]) None)"

text \<open>The new quiz with two more sections added.\<close>

definition threeSectionState :: state where
  "threeSectionState =
     stateAfter (run exampleEnv newQuizState [AddSection ''s2'', AddSection ''s3''])"

subsection \<open>Reachable states\<close>

text \<open>
  Two operations install sections that come from outside: \<open>initializeQuiz\<close> with a
  fetched exam, and \<open>updateQuiz\<close> with a \<open>question_sources\<close> property. An operation
  respects the bound when the sections it installs in this way hold at most
  \<open>MAX_QUESTIONS_PER_QUIZ_SECTION\<close> questions each.
\<close>

definition boundedSections :: "env \<Rightarrow> QuizSection list \<Rightarrow> bool" where
  "boundedSections env secs =
     list_all (\<lambda>section. length (questions section) \<le> MAX_QUESTIONS_PER_QUIZ_SECTION env) secs"

fun respectsBound :: "env \<Rightarrow> op \<Rightarrow> bool" where
  "respectsBound env (InitializeQuiz c (Some (q, exercises)) sid) =
     boundedSections env (question_sources q)"
| "respectsBound env (UpdateQuiz u) =
     (case u_question_sources u of None \<Rightarrow> True | Some secs \<Rightarrow> boundedSections env secs)"
| "respectsBound env x = True"

text \<open>The states that the operations produce, starting from the state at creation.\<close>

inductive reachable :: "env \<Rightarrow> state \<Rightarrow> bool" for env :: env where
  reachable_initial: "reachable env initialState"
| reachable_step:
    "reachable env s \<Longrightarrow> respectsBound env x \<Longrightarrow> reachable env (stateAfter (step env s x))"

subsection \<open>Operations that bring no duplicate\<close>

text \<open>
  Nothing in the operations compares a new question with the questions of the other
  sections, or the new questions with one another. An operation brings no
  duplicate when the questions it is given have distinct items that occur in no
  other section, the sections it is given (a fetched exam, \<open>question_sources\<close> for
  \<open>updateQuiz\<close>) hold no item twice, the seeded shuffle of \<open>selectQuestions\<close>
  returns questions of the pool with distinct items, and, for
  \<open>autoReplaceQuestions\<close>, \<open>shuffled\<close> returns unused items of the exercise without
  repetition and no unused item belongs to two exercises of the active section.
\<close>

definition sectionItems :: "QuizSection list \<Rightarrow> string list" where
  "sectionItems secs = map item (concat (map questions secs))"

definition newToQuiz :: "state \<Rightarrow> nat \<Rightarrow> QuizQuestion list \<Rightarrow> bool" where
  "newToQuiz s i qs \<longleftrightarrow>
     distinct (map item qs) \<and> (\<forall>q\<in>set qs. item q \<notin> set (otherItems s i))"

fun bringsNoDuplicate :: "env \<Rightarrow> state \<Rightarrow> op \<Rightarrow> bool" where
  "bringsNoDuplicate env s (UpdateSection i u) =
     (case u_questions u of None \<Rightarrow> True | Some qs \<Rightarrow> newToQuiz s i qs)"
| "bringsNoDuplicate env s (AddQuestionsToSection i qs resources its) =
     (case qs of None \<Rightarrow> True | Some qs' \<Rightarrow> newToQuiz s i qs')"
| "bringsNoDuplicate env s (AddQuestionsToSectionFromResources i pool n seed) =
     (case pool of
        None \<Rightarrow> True
      | Some p \<Rightarrow>
          let available = questionPool p (map item (allQuestionsInQuiz s));
              drawn = seededShuffle env seed available
          in distinct (map item drawn) \<and> (\<forall>q\<in>set drawn. q \<in> set available))"
| "bringsNoDuplicate env s (InitializeQuiz c fetched sid) =
     (case fetched of
        None \<Rightarrow> True
      | Some (q, exercises) \<Rightarrow> distinct (sectionItems (question_sources q)))"
| "bringsNoDuplicate env s (UpdateQuiz u) =
     (case u_question_sources u of None \<Rightarrow> True | Some secs \<Rightarrow> distinct (sectionItems secs))"
| "bringsNoDuplicate env s (AutoReplaceQuestions its) =
     (case activeExercisesUnusedQuestionsMap s of
        Inl e \<Rightarrow> True
      | Inr um \<Rightarrow>
          let ks = uniq (map exercise_id (activeQuestions s)) in
          (\<forall>k\<in>set ks.
             case um k of
               None \<Rightarrow> True
             | Some unused \<Rightarrow>
                 distinct (shuffled env unused) \<and> (\<forall>it\<in>set (shuffled env unused). it \<in> set unused)) \<and>
          (\<forall>k\<in>set ks. \<forall>k'\<in>set ks.
             k \<noteq> k' \<longrightarrow>
             (case um k of
                None \<Rightarrow> True
              | Some a \<Rightarrow> (case um k' of None \<Rightarrow> True | Some b \<Rightarrow> \<forall>it\<in>set a. it \<notin> set b))))"
| "bringsNoDuplicate env s x = True"

section \<open>Theorems\<close>

subsection \<open>Array helpers\<close>

lemma at_index_Cons_Suc: "at_index (x # xs) (Suc k) = at_index xs k"
  by (simp add: at_index_def)

lemma at_index_Nil: "at_index [] k = None"
  by (simp add: at_index_def)

subsection \<open>Replacing questions\<close>

lemma length_replaceMap: "length (replaceMap base its reps) = length base"
  by (induction base arbitrary: reps) (auto split: list.splits)

lemma replaceMap_nth:
  "i < length base \<Longrightarrow>
   replaceMap base its reps ! i =
     (if item (base ! i) \<in> set its
      then at_index reps (listed_count its (take i base))
      else Some (base ! i))"
proof (induction base arbitrary: reps i)
  case Nil
  then show ?case by simp
next
  case (Cons q qs)
  show ?case
  proof (cases i)
    case 0
    then show ?thesis
      by (cases reps) (simp_all add: listed_count_def at_index_def)
  next
    case (Suc k)
    with Cons.prems have k: "k < length qs" by simp
    show ?thesis
    proof (cases "item q \<in> set its")
      case True
      then show ?thesis
        using Cons.IH [OF k] Suc
        by (cases reps) (simp_all add: listed_count_def at_index_Cons_Suc at_index_Nil)
    next
      case False
      then show ?thesis
        using Cons.IH [OF k] Suc
        by (simp add: listed_count_def)
    qed
  qed
qed

lemma listed_count_le:
  assumes "distinct (map item qs)"
  shows "listed_count its qs \<le> length its"
proof -
  define listed where "listed = filter (\<lambda>q. item q \<in> set its) qs"
  from assms have "distinct (map item listed)"
    by (simp add: listed_def distinct_map_filter)
  then have "length listed = card (set (map item listed))"
    by (metis distinct_card length_map)
  also have "\<dots> \<le> card (set its)"
    by (rule card_mono) (auto simp: listed_def)
  also have "\<dots> \<le> length its"
    by (rule card_length)
  finally show ?thesis
    by (simp add: listed_count_def listed_def)
qed

lemma listed_count_take:
  assumes "i < length base" and "item (base ! i) \<in> set its"
  shows "listed_count its (take i base) < listed_count its base"
proof -
  have "base = take i base @ base ! i # drop (Suc i) base"
    using assms(1) by (rule id_take_nth_drop)
  then have "listed_count its base
               = listed_count its (take i base @ base ! i # drop (Suc i) base)"
    by simp
  also have "\<dots> = listed_count its (take i base) + 1 + listed_count its (drop (Suc i) base)"
    using assms(2) by (simp add: listed_count_def)
  finally show ?thesis by simp
qed

lemma replaceMap_defined:
  assumes "distinct (map item base)" and "length its = length reps"
  shows "None \<notin> set (replaceMap base its reps)"
proof
  assume "None \<in> set (replaceMap base its reps)"
  then obtain i where i: "i < length base" and n: "replaceMap base its reps ! i = None"
    by (auto simp: in_set_conv_nth length_replaceMap)
  from n replaceMap_nth [OF i, of its reps]
  have l: "item (base ! i) \<in> set its"
    and a: "at_index reps (listed_count its (take i base)) = None"
    by (auto split: if_splits)
  from listed_count_take [OF i l] listed_count_le [OF assms(1), of its] assms(2)
  have "listed_count its (take i base) < length reps"
    by simp
  with a show False
    by (simp add: at_index_def)
qed

text \<open>
  C2, as the code has it. \<open>_replaceQuestions\<close> throws a TypeError exactly when the two
  arrays differ in length. Otherwise it returns an array as long as the base array,
  where a question whose item is not listed stays in place, and the question with a
  listed item that has \<open>k\<close> listed questions before it holds the replacement at
  index \<open>k\<close>, or \<open>undefined\<close> when there are no more than \<open>k\<close> replacements. When
  the items of the base array are pairwise distinct the replacements suffice, and
  no element is \<open>undefined\<close>.
\<close>

theorem replaceQuestions_spec:
  "(if length its \<noteq> length reps
    then replaceQuestions base its reps = Inl TypeError
    else \<exists>res. replaceQuestions base its reps = Inr res \<and> length res = length base \<and>
           (\<forall>i<length base.
              res ! i = (if item (base ! i) \<in> set its
                         then at_index reps (listed_count its (take i base))
                         else Some (base ! i))) \<and>
           (distinct (map item base) \<longrightarrow> None \<notin> set res))"
  by (simp add: replaceQuestions_def length_replaceMap replaceMap_nth replaceMap_defined)

theorem replaceQuestions_spec_witness:
  "length [''E1:a''] = length [questionA2] \<and>
   (\<exists>res. replaceQuestions [questionB, questionA] [''E1:a''] [questionA2] = Inr res \<and>
      length res = 2 \<and> res ! 0 = Some questionB \<and> res ! 1 = Some questionA2)"
proof -
  from replaceQuestions_spec [of "[''E1:a'']" "[questionA2]" "[questionB, questionA]"]
  obtain res where r: "replaceQuestions [questionB, questionA] [''E1:a''] [questionA2] = Inr res"
    and l: "length res = length [questionB, questionA]"
    and n: "\<forall>i<length [questionB, questionA].
              res ! i = (if item ([questionB, questionA] ! i) \<in> set [''E1:a'']
                         then at_index [questionA2]
                                (listed_count [''E1:a''] (take i [questionB, questionA]))
                         else Some ([questionB, questionA] ! i))"
    by auto
  from n have "res ! 0 = Some questionB"
    by (simp add: questionB_def)
  moreover from n have "res ! 1 = Some questionA2"
    by (simp add: questionA_def questionB_def listed_count_def at_index_def)
  ultimately show ?thesis using r l by simp
qed

text \<open>
  The claim as stated fails where the base array has more questions with a listed
  item than there are replacements: the second one is replaced by \<open>undefined\<close>.
\<close>

theorem replaceQuestions_counterexample:
  "replaceQuestions [questionA, questionA] [''E1:a''] [questionA2]
     = Inr [Some questionA2, None]"
  by (simp add: replaceQuestions_def questionA_def)

subsection \<open>What the basic operations leave behind\<close>

lemma updateQuiz_Inl:
  "updateQuiz env s u = Inl (e, s') \<longleftrightarrow>
     \<not> validateQuiz env u \<and> e = TypeError \<and> s' = s\<lparr>quizHasChanged := True\<rparr>"
  by (auto simp: updateQuiz_def Let_def)

lemma updateQuiz_Inr:
  "updateQuiz env s u = Inr s' \<longleftrightarrow>
     validateQuiz env u \<and> s' = s\<lparr>quizHasChanged := True, quiz := spreadQuiz (quiz s) u\<rparr>"
  by (auto simp: updateQuiz_def Let_def)

lemma updateSection_Inl:
  "updateSection env s i u = Inl (e, s') \<Longrightarrow> e = TypeError \<and> s' = s\<lparr>quizHasChanged := True\<rparr>"
  by (auto simp: updateSection_def Let_def split: option.splits if_splits)

lemma updateSection_Inr:
  "updateSection env s i u = Inr s' \<Longrightarrow>
     i < length (allSections s) \<and>
     s' = s\<lparr>quizHasChanged := True,
           exerciseMap := (case u_resourcePool u of
                             None \<Rightarrow> exerciseMap s
                           | Some pool \<Rightarrow> cacheExercises pool (exerciseMap s)),
           quiz := (quiz s)\<lparr>question_sources :=
                     take i (allSections s) @ [spreadSection (allSections s ! i) u]
                     @ drop (i + 1) (allSections s)\<rparr>\<rparr>"
  by (auto simp: updateSection_def Let_def allSections_def at_index_def
      split: option.splits if_splits)

lemma updateSectionReplaced_Inl:
  "updateSectionReplaced env s i qs pool = Inl (e, s') \<Longrightarrow>
     e = TypeError \<and> s' = s\<lparr>quizHasChanged := True\<rparr>"
  by (auto simp: updateSectionReplaced_def split: option.splits dest: updateSection_Inl)

lemma updateSectionReplaced_Inr:
  "updateSectionReplaced env s i qs pool = Inr s' \<Longrightarrow>
     \<exists>qs'. those qs = Some qs' \<and> updateSection env s i (questionsUpdate qs' pool) = Inr s'"
  by (auto simp: updateSectionReplaced_def split: option.splits)

subsection \<open>The exercise cache\<close>

lemma dom_cacheExercises: "dom (cacheExercises pool m) = dom m \<union> ex_id ` set pool"
  unfolding cacheExercises_def
  by (induction pool arbitrary: m) auto

lemma cache_updateQuiz:
  "exerciseMap (stateAfter (updateQuiz env s u)) = exerciseMap s"
  by (simp add: updateQuiz_def Let_def)

lemma cache_updateSection:
  "dom (exerciseMap s) \<subseteq> dom (exerciseMap (stateAfter (updateSection env s i u)))"
  by (auto simp: updateSection_def Let_def dom_cacheExercises split: option.splits)

lemma cache_updateSectionReplaced:
  "dom (exerciseMap s) \<subseteq> dom (exerciseMap (stateAfter (updateSectionReplaced env s i qs pool)))"
  using cache_updateSection
  by (simp add: updateSectionReplaced_def split: option.splits)

lemma cache_addSection:
  "exerciseMap (stateAfter (addSection env s sid)) = exerciseMap s"
  by (simp add: addSection_def cache_updateQuiz)

lemma cache_removeSection:
  "exerciseMap (stateAfter (removeSection env s i sid)) = exerciseMap s"
  by (simp add: removeSection_def addSection_def updateQuiz_def Let_def split: option.splits)

lemma cache_initializeQuiz:
  "dom (exerciseMap s) \<subseteq> dom (exerciseMap (stateAfter (initializeQuiz env s c fetched sid)))"
  by (auto simp: initializeQuiz_def addSection_def updateQuiz_def Let_def dom_cacheExercises
      split: option.splits)

lemma cache_saveQuizThen:
  "exerciseMap (stateAfter (saveQuizThen env s id0 examId)) = exerciseMap s"
  using cache_updateQuiz [of env s "noQuizUpdates\<lparr>u_quiz_id := Some (Some examId)\<rparr>"]
  by (cases "updateQuiz env s (noQuizUpdates\<lparr>u_quiz_id := Some (Some examId)\<rparr>)")
     (auto simp: saveQuizThen_def)

lemma cache_addQuestionsToSectionFromResources:
  "dom (exerciseMap s)
     \<subseteq> dom (exerciseMap (stateAfter (addQuestionsToSectionFromResources env s i pool n seed)))"
  using cache_updateSection
  by (simp add: addQuestionsToSectionFromResources_def split: option.splits sum.splits)

lemma cache_addQuestionsToSection:
  "dom (exerciseMap s)
     \<subseteq> dom (exerciseMap (stateAfter (addQuestionsToSection env s i qs resources its)))"
  using cache_updateSection cache_updateSectionReplaced
  by (simp add: addQuestionsToSection_def Let_def split: option.splits sum.splits)

lemma cache_deleteActiveSelectedQuestions:
  "dom (exerciseMap s) \<subseteq> dom (exerciseMap (stateAfter (deleteActiveSelectedQuestions env s)))"
proof (cases "activeSection s")
  case None
  then show ?thesis by (simp add: deleteActiveSelectedQuestions_def)
next
  case (Some sec)
  define u where
    "u = questionsUpdate
           (filter (\<lambda>q. item q \<notin> set (selectedQuestionIds s)) (questions sec)) None"
  show ?thesis
    using Some cache_updateSection [of s env "activeSectionIndex s" u]
    by (cases "updateSection env s (activeSectionIndex s) u")
       (auto simp: deleteActiveSelectedQuestions_def Let_def u_def)
qed

lemma cache_autoReplaceQuestions:
  "dom (exerciseMap s) \<subseteq> dom (exerciseMap (stateAfter (autoReplaceQuestions env s its)))"
  using cache_updateSectionReplaced
  by (simp add: autoReplaceQuestions_def Let_def split: sum.splits)

text \<open>
  C7. The exercise cache is never evicted: whatever operation runs, and whether it
  returns or throws, every exercise id that the cache maps before the call is still
  mapped after it.
\<close>

theorem exerciseMap_monotone:
  "dom (exerciseMap s) \<subseteq> dom (exerciseMap (stateAfter (step env s x)))"
proof (cases x)
  case (UpdateSection i u)
  then show ?thesis by (simp add: cache_updateSection)
next
  case (AddQuestionsToSectionFromResources i pool n seed)
  then show ?thesis by (simp add: cache_addQuestionsToSectionFromResources)
next
  case (AddQuestionsToSection i qs resources its)
  then show ?thesis by (simp add: cache_addQuestionsToSection)
next
  case (AddSection sid)
  then show ?thesis by (simp add: cache_addSection)
next
  case (RemoveSection i sid)
  then show ?thesis by (simp add: cache_removeSection)
next
  case (InitializeQuiz c fetched sid)
  then show ?thesis by (simp add: cache_initializeQuiz)
next
  case SaveQuiz
  then show ?thesis by (simp add: saveQuiz_def)
next
  case (SaveQuizThen id0 examId)
  then show ?thesis by (simp add: cache_saveQuizThen)
next
  case (UpdateQuiz u)
  then show ?thesis by (simp add: cache_updateQuiz)
next
  case (AddQuestionsToSelection ids)
  then show ?thesis by (simp add: addQuestionsToSelection_def)
next
  case (RemoveQuestionsFromSelection ids)
  then show ?thesis by (simp add: removeQuestionsFromSelection_def)
next
  case ClearSelectedQuestions
  then show ?thesis by (simp add: clearSelectedQuestions_def)
next
  case (SetQuestionItemsToReplace its)
  then show ?thesis by (simp add: setQuestionItemsToReplace_def)
next
  case (Navigate i)
  then show ?thesis by (simp add: navigate_def)
next
  case DeleteActiveSelectedQuestions
  then show ?thesis by (simp add: cache_deleteActiveSelectedQuestions)
next
  case (AutoReplaceQuestions its)
  then show ?thesis by (simp add: cache_autoReplaceQuestions)
qed

subsection \<open>The example states, evaluated\<close>

lemma newQuizState_eq:
  "newQuizState =
     \<lparr>quizHasChanged = False,
      quiz = \<lparr>quiz_id = None, quiz_title = [], assignments = [''c1''], learner_ids = [],
              collection = ''c1'', learners_see_fixed_order = False,
              instant_report_visibility = True, draft = True, active = False,
              archive = False, question_sources = [defaultQuizSection ''s1'']\<rparr>,
      selectedQuestionIds = [], exerciseMap = Map.empty, questionItemsToReplace = None,
      activeSectionIndex = 0\<rparr>"
  by (simp add: newQuizState_def initializeQuiz_def addSection_def updateQuiz_def exampleEnv_def
      initialState_def spreadQuiz_def noQuizUpdates_def defaultQuiz_def)

lemma twoQuestionState_eq:
  "twoQuestionState =
     \<lparr>quizHasChanged = True,
      quiz = \<lparr>quiz_id = None, quiz_title = [], assignments = [''c1''], learner_ids = [],
              collection = ''c1'', learners_see_fixed_order = False,
              instant_report_visibility = True, draft = True, active = False,
              archive = False,
              question_sources =
                [(defaultQuizSection ''s1'')\<lparr>questions := [questionA, questionB]\<rparr>]\<rparr>,
      selectedQuestionIds = [],
      exerciseMap = [''E1'' \<mapsto> exerciseA, ''E2'' \<mapsto> exerciseB],
      questionItemsToReplace = None, activeSectionIndex = 0\<rparr>"
  by (simp add: twoQuestionState_def newQuizState_eq addQuestionsToSection_def
      updateSection_def questionsUpdate_def exampleEnv_def spreadSection_def
      defaultQuizSection_def allSections_def at_index_def Let_def cacheExercises_def
      questionA_def questionB_def exerciseA_def exerciseB_def)

subsection \<open>Removing a section\<close>

lemma threeSectionState_eq:
  "threeSectionState =
     \<lparr>quizHasChanged = True,
      quiz = \<lparr>quiz_id = None, quiz_title = [], assignments = [''c1''], learner_ids = [],
              collection = ''c1'', learners_see_fixed_order = False,
              instant_report_visibility = True, draft = True, active = False,
              archive = False,
              question_sources =
                [defaultQuizSection ''s1'', defaultQuizSection ''s2'',
                 defaultQuizSection ''s3'']\<rparr>,
      selectedQuestionIds = [], exerciseMap = Map.empty, questionItemsToReplace = None,
      activeSectionIndex = 0\<rparr>"
  by (simp add: threeSectionState_def newQuizState_eq addSection_def updateQuiz_def
      exampleEnv_def spreadQuiz_def noQuizUpdates_def)

lemma spreadQuiz_sections:
  "spreadQuiz q (noQuizUpdates\<lparr>u_question_sources := Some secs\<rparr>) = q\<lparr>question_sources := secs\<rparr>"
  by (simp add: spreadQuiz_def noQuizUpdates_def)

text \<open>
  C9. \<open>removeSection\<close> throws an Error, with the state unchanged, when there is no
  section at the index. When there is one and \<open>validateQuiz\<close> accepts the updates
  that \<open>updateQuiz\<close> is given, it returns, and the sections are the former ones
  without the one at the index, in their order, or, if that was the only one, a
  single fresh default section without questions; so the quiz has at least one
  section, and no other field of the quiz has changed. It throws a TypeError when
  \<open>validateQuiz\<close> refuses the remaining sections or the quiz with the fresh section.
\<close>

theorem removeSection_spec:
  "(at_index (allSections s) i = None \<longrightarrow> removeSection env s i sid = Inl (Error, s)) \<and>
   (i < length (allSections s) \<and>
    validateQuiz env (noQuizUpdates\<lparr>u_question_sources :=
       Some (take i (allSections s) @ drop (i + 1) (allSections s))\<rparr>) \<and>
    (length (allSections s) = 1 \<longrightarrow>
       validateQuiz env (noQuizUpdates\<lparr>u_question_sources := Some [defaultQuizSection sid]\<rparr>)) \<longrightarrow>
      removeSection env s i sid =
        Inr (s\<lparr>quizHasChanged := True,
               quiz := (quiz s)\<lparr>question_sources :=
                 (if length (allSections s) = 1 then [defaultQuizSection sid]
                  else take i (allSections s) @ drop (i + 1) (allSections s))\<rparr>\<rparr>)) \<and>
   (i < length (allSections s) \<and>
    \<not> validateQuiz env (noQuizUpdates\<lparr>u_question_sources :=
       Some (take i (allSections s) @ drop (i + 1) (allSections s))\<rparr>) \<longrightarrow>
      removeSection env s i sid = Inl (TypeError, s\<lparr>quizHasChanged := True\<rparr>)) \<and>
   (i < length (allSections s) \<and>
    validateQuiz env (noQuizUpdates\<lparr>u_question_sources :=
       Some (take i (allSections s) @ drop (i + 1) (allSections s))\<rparr>) \<and>
    length (allSections s) = 1 \<and>
    \<not> validateQuiz env (noQuizUpdates\<lparr>u_question_sources := Some [defaultQuizSection sid]\<rparr>) \<longrightarrow>
      removeSection env s i sid =
        Inl (TypeError, s\<lparr>quizHasChanged := True,
                          quiz := (quiz s)\<lparr>question_sources := []\<rparr>\<rparr>)) \<and>
   (removeSection env s i sid = Inr s' \<longrightarrow>
      i < length (allSections s) \<and>
      allSections s' =
        (if length (allSections s) = 1 then [defaultQuizSection sid]
         else take i (allSections s) @ drop (i + 1) (allSections s)) \<and>
      1 \<le> length (allSections s') \<and>
      questions (defaultQuizSection sid) = [] \<and>
      quiz s' = (quiz s)\<lparr>question_sources := allSections s'\<rparr>)"
proof -
  define rest where "rest = take i (allSections s) @ drop (i + 1) (allSections s)"
  have len: "length rest = length (allSections s) - 1" if "i < length (allSections s)"
    using that by (simp add: rest_def)
  have e: "rest = [] \<longleftrightarrow> length (allSections s) = 1" if "i < length (allSections s)"
    using len [OF that] that by (cases rest) auto
  define u where "u = noQuizUpdates\<lparr>u_question_sources := Some rest\<rparr>"
  define u' where "u' = noQuizUpdates\<lparr>u_question_sources := Some [defaultQuizSection sid]\<rparr>"
  define s1 where "s1 = s\<lparr>quizHasChanged := True, quiz := (quiz s)\<lparr>question_sources := rest\<rparr>\<rparr>"
  have none: "removeSection env s i sid = Inl (Error, s)"
    if "at_index (allSections s) i = None"
    using that by (simp add: removeSection_def)
  have unfold: "removeSection env s i sid =
      (case updateQuiz env s u of
         Inl thrown \<Rightarrow> Inl thrown
       | Inr s1 \<Rightarrow> if length (allSections s1) = 0 then addSection env s1 sid else Inr s1)"
    if "i < length (allSections s)"
    using that by (simp add: removeSection_def at_index_def Let_def u_def rest_def)
  have uq: "updateQuiz env s u = Inr s1" if "validateQuiz env u"
    using that by (simp add: updateQuiz_def Let_def s1_def u_def spreadQuiz_sections)
  have uq_refused: "updateQuiz env s u = Inl (TypeError, s\<lparr>quizHasChanged := True\<rparr>)"
    if "\<not> validateQuiz env u"
    using that by (simp add: updateQuiz_def Let_def)
  have s1_sections: "allSections s1 = rest"
    by (simp add: s1_def allSections_def)
  have add: "addSection env s1 sid = updateQuiz env s1 u'" if "rest = []"
    using that by (simp add: addSection_def u'_def s1_def)
  have add_ok: "updateQuiz env s1 u' =
      Inr (s\<lparr>quizHasChanged := True,
             quiz := (quiz s)\<lparr>question_sources := [defaultQuizSection sid]\<rparr>\<rparr>)"
    if "validateQuiz env u'"
    using that by (simp add: updateQuiz_def Let_def s1_def u'_def spreadQuiz_sections)
  have add_refused: "updateQuiz env s1 u' = Inl (TypeError, s1)" if "\<not> validateQuiz env u'"
    using that by (simp add: updateQuiz_def Let_def s1_def)
  have refused: "removeSection env s i sid = Inl (TypeError, s\<lparr>quizHasChanged := True\<rparr>)"
    if "i < length (allSections s)" and "\<not> validateQuiz env u"
    by (simp only: unfold [OF that(1)] uq_refused [OF that(2)] sum.case)
  have many: "removeSection env s i sid = Inr s1"
    if "i < length (allSections s)" and "validateQuiz env u" and "length (allSections s) \<noteq> 1"
  proof -
    from e [OF that(1)] that(3) have "length rest \<noteq> 0" by simp
    then show ?thesis
      by (simp only: unfold [OF that(1)] uq [OF that(2)] sum.case s1_sections) simp
  qed
  have one: "removeSection env s i sid =
        Inr (s\<lparr>quizHasChanged := True,
               quiz := (quiz s)\<lparr>question_sources := [defaultQuizSection sid]\<rparr>\<rparr>)"
    if "i < length (allSections s)" and "validateQuiz env u" and "length (allSections s) = 1"
      and "validateQuiz env u'"
  proof -
    from e [OF that(1)] that(3) have r: "rest = []" by simp
    then have "length rest = 0" by simp
    then show ?thesis
      by (simp only: unfold [OF that(1)] uq [OF that(2)] sum.case s1_sections
          add [OF r] add_ok [OF that(4)]) simp
  qed
  have one_refused: "removeSection env s i sid = Inl (TypeError, s1)"
    if "i < length (allSections s)" and "validateQuiz env u" and "length (allSections s) = 1"
      and "\<not> validateQuiz env u'"
  proof -
    from e [OF that(1)] that(3) have r: "rest = []" by simp
    then have "length rest = 0" by simp
    then show ?thesis
      by (simp only: unfold [OF that(1)] uq [OF that(2)] sum.case s1_sections
          add [OF r] add_refused [OF that(4)]) simp
  qed
  have returned: "i < length (allSections s) \<and>
      allSections s' = (if length (allSections s) = 1 then [defaultQuizSection sid] else rest) \<and>
      1 \<le> length (allSections s') \<and>
      questions (defaultQuizSection sid) = [] \<and>
      quiz s' = (quiz s)\<lparr>question_sources := allSections s'\<rparr>"
    if r: "removeSection env s i sid = Inr s'"
  proof -
    have i: "i < length (allSections s)"
    proof (rule ccontr)
      assume "\<not> i < length (allSections s)"
      then have "at_index (allSections s) i = None" by (simp add: at_index_def)
      from none [OF this] r show False by simp
    qed
    have v: "validateQuiz env u"
    proof (rule ccontr)
      assume "\<not> validateQuiz env u"
      from refused [OF i this] r show False by simp
    qed
    have s': "s' = s\<lparr>quizHasChanged := True, quiz := (quiz s)\<lparr>question_sources :=
                 (if length (allSections s) = 1 then [defaultQuizSection sid] else rest)\<rparr>\<rparr>"
    proof (cases "length (allSections s) = 1")
      case False
      from many [OF i v False] r False show ?thesis by (simp add: s1_def)
    next
      case True
      show ?thesis
      proof (cases "validateQuiz env u'")
        case v2: True
        from one [OF i v True v2] r True show ?thesis by simp
      next
        case v2: False
        from one_refused [OF i v True v2] r show ?thesis by simp
      qed
    qed
    have a: "allSections s'
               = (if length (allSections s) = 1 then [defaultQuizSection sid] else rest)"
      by (simp add: s' allSections_def)
    have "1 \<le> length (allSections s')"
      using a len [OF i] i by auto
    moreover have "questions (defaultQuizSection sid) = []"
      by (simp add: defaultQuizSection_def)
    moreover have "quiz s' = (quiz s)\<lparr>question_sources := allSections s'\<rparr>"
      by (simp add: s' allSections_def)
    ultimately show ?thesis using i a by simp
  qed
  have c2: "removeSection env s i sid =
        Inr (s\<lparr>quizHasChanged := True,
               quiz := (quiz s)\<lparr>question_sources :=
                 (if length (allSections s) = 1 then [defaultQuizSection sid] else rest)\<rparr>\<rparr>)"
    if "i < length (allSections s)" and "validateQuiz env u"
      and "length (allSections s) = 1 \<longrightarrow> validateQuiz env u'"
  proof (cases "length (allSections s) = 1")
    case True
    with that one [OF that(1,2) True] show ?thesis by simp
  next
    case False
    with many [OF that(1,2) False] show ?thesis by (simp add: s1_def)
  qed
  have c4: "removeSection env s i sid =
        Inl (TypeError, s\<lparr>quizHasChanged := True, quiz := (quiz s)\<lparr>question_sources := []\<rparr>\<rparr>)"
    if "i < length (allSections s)" and "validateQuiz env u" and "length (allSections s) = 1"
      and "\<not> validateQuiz env u'"
  proof -
    from e [OF that(1)] that(3) have "rest = []" by simp
    with one_refused [OF that] show ?thesis by (simp add: s1_def)
  qed
  show ?thesis
    unfolding rest_def [symmetric] u_def [symmetric] u'_def [symmetric]
  proof (intro conjI impI)
    assume "at_index (allSections s) i = None"
    then show "removeSection env s i sid = Inl (Error, s)" by (rule none)
  next
    assume "i < length (allSections s) \<and> validateQuiz env u \<and>
            (length (allSections s) = 1 \<longrightarrow> validateQuiz env u')"
    then show "removeSection env s i sid =
        Inr (s\<lparr>quizHasChanged := True,
               quiz := (quiz s)\<lparr>question_sources :=
                 (if length (allSections s) = 1 then [defaultQuizSection sid] else rest)\<rparr>\<rparr>)"
      using c2 by blast
  next
    assume "i < length (allSections s) \<and> \<not> validateQuiz env u"
    then show "removeSection env s i sid = Inl (TypeError, s\<lparr>quizHasChanged := True\<rparr>)"
      using refused by blast
  next
    assume "i < length (allSections s) \<and> validateQuiz env u \<and> length (allSections s) = 1 \<and>
            \<not> validateQuiz env u'"
    then show "removeSection env s i sid =
        Inl (TypeError, s\<lparr>quizHasChanged := True, quiz := (quiz s)\<lparr>question_sources := []\<rparr>\<rparr>)"
      using c4 by blast
  next
    assume r: "removeSection env s i sid = Inr s'"
    from returned [OF r]
    show "i < length (allSections s)"
      and "allSections s' =
             (if length (allSections s) = 1 then [defaultQuizSection sid] else rest)"
      and "1 \<le> length (allSections s')"
      and "questions (defaultQuizSection sid) = []"
      and "quiz s' = (quiz s)\<lparr>question_sources := allSections s'\<rparr>"
      by blast+
  qed
qed

theorem removeSection_spec_witness:
  "at_index (allSections newQuizState) 1 = None \<and>
   removeSection exampleEnv newQuizState 1 ''s2'' = Inl (Error, newQuizState) \<and>
   removeSection exampleEnv newQuizState 0 ''s2''
     = Inr (newQuizState\<lparr>quizHasChanged := True,
              quiz := (quiz newQuizState)\<lparr>question_sources := [defaultQuizSection ''s2'']\<rparr>\<rparr>) \<and>
   allSections threeSectionState
     = [defaultQuizSection ''s1'', defaultQuizSection ''s2'', defaultQuizSection ''s3''] \<and>
   removeSection exampleEnv threeSectionState 1 ''s4''
     = Inr (threeSectionState\<lparr>quizHasChanged := True,
              quiz := (quiz threeSectionState)\<lparr>question_sources :=
                [defaultQuizSection ''s1'', defaultQuizSection ''s3'']\<rparr>\<rparr>)"
proof -
  have n: "allSections newQuizState = [defaultQuizSection ''s1'']"
    by (simp add: newQuizState_eq allSections_def)
  have t: "allSections threeSectionState
     = [defaultQuizSection ''s1'', defaultQuizSection ''s2'', defaultQuizSection ''s3'']"
    by (simp add: threeSectionState_eq allSections_def)
  have a: "at_index (allSections newQuizState) 1 = None"
    by (simp add: n at_index_def)
  have v: "validateQuiz exampleEnv u" for u
    by (simp add: exampleEnv_def)
  have r1: "removeSection exampleEnv newQuizState 1 ''s2'' = Inl (Error, newQuizState)"
    by (rule removeSection_spec [of newQuizState 1 exampleEnv "''s2''", THEN conjunct1, THEN mp])
       (rule a)
  have "removeSection exampleEnv newQuizState 0 ''s2''
     = Inr (newQuizState\<lparr>quizHasChanged := True,
              quiz := (quiz newQuizState)\<lparr>question_sources :=
                (if length (allSections newQuizState) = 1 then [defaultQuizSection ''s2'']
                 else take 0 (allSections newQuizState)
                      @ drop (0 + 1) (allSections newQuizState))\<rparr>\<rparr>)"
    by (rule removeSection_spec [of newQuizState 0 exampleEnv "''s2''",
          THEN conjunct2, THEN conjunct1, THEN mp])
       (simp add: v n)
  then have r2: "removeSection exampleEnv newQuizState 0 ''s2''
     = Inr (newQuizState\<lparr>quizHasChanged := True,
              quiz := (quiz newQuizState)\<lparr>question_sources := [defaultQuizSection ''s2'']\<rparr>\<rparr>)"
    by (simp add: n)
  have "removeSection exampleEnv threeSectionState 1 ''s4''
     = Inr (threeSectionState\<lparr>quizHasChanged := True,
              quiz := (quiz threeSectionState)\<lparr>question_sources :=
                (if length (allSections threeSectionState) = 1 then [defaultQuizSection ''s4'']
                 else take 1 (allSections threeSectionState)
                      @ drop (1 + 1) (allSections threeSectionState))\<rparr>\<rparr>)"
    by (rule removeSection_spec [of threeSectionState 1 exampleEnv "''s4''",
          THEN conjunct2, THEN conjunct1, THEN mp])
       (simp add: v t)
  then have r3: "removeSection exampleEnv threeSectionState 1 ''s4''
     = Inr (threeSectionState\<lparr>quizHasChanged := True,
              quiz := (quiz threeSectionState)\<lparr>question_sources :=
                [defaultQuizSection ''s1'', defaultQuizSection ''s3'']\<rparr>\<rparr>)"
    by (simp add: t)
  from a r1 r2 t r3 show ?thesis by simp
qed

subsection \<open>The frame of updateSection\<close>

lemma spreadSection_fields:
  "section_id (spreadSection t u) = (case u_section_id u of None \<Rightarrow> section_id t | Some v \<Rightarrow> v)"
  "section_title (spreadSection t u)
     = (case u_section_title u of None \<Rightarrow> section_title t | Some v \<Rightarrow> v)"
  "description (spreadSection t u)
     = (case u_description u of None \<Rightarrow> description t | Some v \<Rightarrow> v)"
  "questions (spreadSection t u) = (case u_questions u of None \<Rightarrow> questions t | Some v \<Rightarrow> v)"
  "section_fixed_order (spreadSection t u)
     = (case u_section_fixed_order u of None \<Rightarrow> section_fixed_order t | Some v \<Rightarrow> v)"
  by (simp_all add: spreadSection_def)

lemma updateSection_sections:
  assumes "updateSection env s i u = Inr s'"
  shows "i < length (allSections s)"
    and "allSections s' = (allSections s)[i := spreadSection (allSections s ! i) u]"
    and "quiz s' = (quiz s)\<lparr>question_sources := allSections s'\<rparr>"
proof -
  from updateSection_Inr [OF assms] show i: "i < length (allSections s)" by simp
  from updateSection_Inr [OF assms]
  have "allSections s' = take i (allSections s) @ [spreadSection (allSections s ! i) u]
          @ drop (i + 1) (allSections s)"
    by (simp add: allSections_def)
  with i show a: "allSections s' = (allSections s)[i := spreadSection (allSections s ! i) u]"
    by (simp add: upd_conv_take_nth_drop)
  from updateSection_Inr [OF assms]
  show "quiz s' = (quiz s)\<lparr>question_sources := allSections s'\<rparr>"
    by (simp add: allSections_def)
qed

text \<open>
  C10. When \<open>updateSection\<close> returns, the quiz has as many sections as before, every
  section at another index is the one that was there, every field of the quiz other
  than \<open>question_sources\<close> is unchanged, and a field of the target section that the
  updates do not have keeps its value, while a field that they have takes theirs.
\<close>

theorem updateSection_frame:
  "updateSection env s i u = Inr s' \<Longrightarrow>
     i < length (allSections s) \<and>
     length (allSections s') = length (allSections s) \<and>
     (\<forall>j<length (allSections s). j \<noteq> i \<longrightarrow> allSections s' ! j = allSections s ! j) \<and>
     quiz s' = (quiz s)\<lparr>question_sources := allSections s'\<rparr> \<and>
     section_id (allSections s' ! i)
       = (case u_section_id u of None \<Rightarrow> section_id (allSections s ! i) | Some v \<Rightarrow> v) \<and>
     section_title (allSections s' ! i)
       = (case u_section_title u of None \<Rightarrow> section_title (allSections s ! i) | Some v \<Rightarrow> v) \<and>
     description (allSections s' ! i)
       = (case u_description u of None \<Rightarrow> description (allSections s ! i) | Some v \<Rightarrow> v) \<and>
     questions (allSections s' ! i)
       = (case u_questions u of None \<Rightarrow> questions (allSections s ! i) | Some v \<Rightarrow> v) \<and>
     section_fixed_order (allSections s' ! i)
       = (case u_section_fixed_order u of
            None \<Rightarrow> section_fixed_order (allSections s ! i) | Some v \<Rightarrow> v)"
  using updateSection_sections [of env s i u s']
  by (simp add: spreadSection_fields)

theorem updateSection_frame_witness:
  "updateSection exampleEnv twoQuestionState 0 (questionsUpdate [questionA2] None)
     = Inr (twoQuestionState\<lparr>quiz := (quiz twoQuestionState)\<lparr>question_sources :=
              [(defaultQuizSection ''s1'')\<lparr>questions := [questionA2]\<rparr>]\<rparr>\<rparr>) \<and>
   section_title (allSections (twoQuestionState\<lparr>quiz := (quiz twoQuestionState)\<lparr>question_sources :=
              [(defaultQuizSection ''s1'')\<lparr>questions := [questionA2]\<rparr>]\<rparr>\<rparr>) ! 0)
     = section_title (allSections twoQuestionState ! 0)"
proof -
  have u: "updateSection exampleEnv twoQuestionState 0 (questionsUpdate [questionA2] None)
     = Inr (twoQuestionState\<lparr>quiz := (quiz twoQuestionState)\<lparr>question_sources :=
              [(defaultQuizSection ''s1'')\<lparr>questions := [questionA2]\<rparr>]\<rparr>\<rparr>)"
    by (simp add: twoQuestionState_eq updateSection_def Let_def at_index_def
        questionsUpdate_def exampleEnv_def spreadSection_def defaultQuizSection_def
        allSections_def)
  from updateSection_frame [OF u] u show ?thesis
    by (simp add: questionsUpdate_def)
qed

subsection \<open>Saving\<close>

text \<open>
  C5. When the quiz fails validation, \<open>saveQuiz\<close> rejects without calling the REST
  resource and leaves the state, \<open>quizHasChanged\<close> included, as it was. When the quiz
  is valid it makes one call, whose data has the fields of \<open>fieldsToSave\<close> with the
  values of the quiz and, for a draft only, the sections without their
  \<open>section_id\<close> and with questions without their \<open>item\<close>. When the callback of a
  successful save returns, \<open>quizHasChanged\<close> is false.
\<close>

theorem saveQuiz_spec:
  "(\<not> validateQuiz env (wholeQuiz (quiz s)) \<longrightarrow>
      saveQuiz env s = (Rejected, s) \<and> saveCalls (fst (saveQuiz env s)) = []) \<and>
   (validateQuiz env (wholeQuiz (quiz s)) \<longrightarrow>
      snd (saveQuiz env s) = s \<and>
      saveCalls (fst (saveQuiz env s)) =
        [\<lparr>req_id = quiz_id (quiz s),
          req_data =
            \<lparr>f_title = quiz_title (quiz s), f_assignments = assignments (quiz s),
             f_learner_ids = learner_ids (quiz s), f_collection = collection (quiz s),
             f_learners_see_fixed_order = learners_see_fixed_order (quiz s),
             f_instant_report_visibility = instant_report_visibility (quiz s),
             f_draft = draft (quiz s), f_active = active (quiz s),
             f_archive = archive (quiz s),
             f_question_sources =
               (if draft (quiz s)
                then Some (map (\<lambda>section.
                        \<lparr>ss_section_title = section_title section,
                         ss_description = description section,
                         ss_questions =
                           map (\<lambda>q. \<lparr>sq_exercise_id = exercise_id q,
                                      sq_question_id = question_id q,
                                      sq_counter_in_exercise = counter_in_exercise q,
                                      sq_title = title q\<rparr>)
                             (questions section),
                         ss_section_fixed_order = section_fixed_order section\<rparr>)
                      (question_sources (quiz s)))
                else None)\<rparr>\<rparr>]) \<and>
   (saveQuizThen env t id0 examId = Inr t' \<longrightarrow> \<not> quizHasChanged t') \<and>
   (id0 = Some examId \<or> validateQuiz env (noQuizUpdates\<lparr>u_quiz_id := Some (Some examId)\<rparr>) \<longrightarrow>
      (\<exists>t'. saveQuizThen env t id0 examId = Inr t'))"
proof (intro conjI impI)
  assume "\<not> validateQuiz env (wholeQuiz (quiz s))"
  then show "saveQuiz env s = (Rejected, s)" and "saveCalls (fst (saveQuiz env s)) = []"
    by (simp_all add: saveQuiz_def)
next
  assume v: "validateQuiz env (wholeQuiz (quiz s))"
  then show "snd (saveQuiz env s) = s"
    by (simp add: saveQuiz_def)
  have q: "questionToSave = (\<lambda>q. \<lparr>sq_exercise_id = exercise_id q,
             sq_question_id = question_id q, sq_counter_in_exercise = counter_in_exercise q,
             sq_title = title q\<rparr>)"
    by (rule ext) (simp add: questionToSave_def)
  have sec: "sectionToSave = (\<lambda>section.
               \<lparr>ss_section_title = section_title section,
                ss_description = description section,
                ss_questions = map questionToSave (questions section),
                ss_section_fixed_order = section_fixed_order section\<rparr>)"
    by (rule ext) (simp add: sectionToSave_def)
  from v show "saveCalls (fst (saveQuiz env s)) =
        [\<lparr>req_id = quiz_id (quiz s),
          req_data =
            \<lparr>f_title = quiz_title (quiz s), f_assignments = assignments (quiz s),
             f_learner_ids = learner_ids (quiz s), f_collection = collection (quiz s),
             f_learners_see_fixed_order = learners_see_fixed_order (quiz s),
             f_instant_report_visibility = instant_report_visibility (quiz s),
             f_draft = draft (quiz s), f_active = active (quiz s),
             f_archive = archive (quiz s),
             f_question_sources =
               (if draft (quiz s)
                then Some (map (\<lambda>section.
                        \<lparr>ss_section_title = section_title section,
                         ss_description = description section,
                         ss_questions =
                           map (\<lambda>q. \<lparr>sq_exercise_id = exercise_id q,
                                      sq_question_id = question_id q,
                                      sq_counter_in_exercise = counter_in_exercise q,
                                      sq_title = title q\<rparr>)
                             (questions section),
                         ss_section_fixed_order = section_fixed_order section\<rparr>)
                      (question_sources (quiz s)))
                else None)\<rparr>\<rparr>]"
    by (simp add: saveQuiz_def finalQuiz_def Let_def allSections_def sec q)
next
  assume "saveQuizThen env t id0 examId = Inr t'"
  then show "\<not> quizHasChanged t'"
    by (auto simp: saveQuizThen_def updateQuiz_def Let_def split: if_splits)
next
  assume "id0 = Some examId \<or> validateQuiz env (noQuizUpdates\<lparr>u_quiz_id := Some (Some examId)\<rparr>)"
  then show "\<exists>t'. saveQuizThen env t id0 examId = Inr t'"
    by (auto simp: saveQuizThen_def updateQuiz_def Let_def)
qed

theorem saveQuiz_spec_witness:
  "validateQuiz exampleEnv (wholeQuiz (quiz twoQuestionState)) \<and>
   map req_id (saveCalls (fst (saveQuiz exampleEnv twoQuestionState))) = [None] \<and>
   map (f_question_sources \<circ> req_data) (saveCalls (fst (saveQuiz exampleEnv twoQuestionState)))
     = [Some [\<lparr>ss_section_title = [], ss_description = [],
               ss_questions =
                 [\<lparr>sq_exercise_id = ''E1'', sq_question_id = ''a'',
                   sq_counter_in_exercise = 1, sq_title = ''Fractions''\<rparr>,
                  \<lparr>sq_exercise_id = ''E2'', sq_question_id = ''b'',
                   sq_counter_in_exercise = 1, sq_title = ''Decimals''\<rparr>],
               ss_section_fixed_order = False\<rparr>]] \<and>
   (\<exists>t'. saveQuizThen exampleEnv twoQuestionState None ''exam1'' = Inr t' \<and> \<not> quizHasChanged t')"
proof -
  have v: "validateQuiz exampleEnv (wholeQuiz (quiz twoQuestionState))"
    by (simp add: exampleEnv_def)
  have "validateQuiz exampleEnv (noQuizUpdates\<lparr>u_quiz_id := Some (Some ''exam1'')\<rparr>)"
    by (simp add: exampleEnv_def)
  with saveQuiz_spec [of exampleEnv twoQuestionState twoQuestionState None "''exam1''"]
  obtain t' where t: "saveQuizThen exampleEnv twoQuestionState None ''exam1'' = Inr t'"
    by blast
  with saveQuiz_spec [of exampleEnv twoQuestionState twoQuestionState None "''exam1''" t']
  have c: "\<not> quizHasChanged t'"
    by blast
  from saveQuiz_spec [of exampleEnv twoQuestionState twoQuestionState None "''exam1''" t'] v
  have "saveCalls (fst (saveQuiz exampleEnv twoQuestionState)) =
        [\<lparr>req_id = quiz_id (quiz twoQuestionState),
          req_data =
            \<lparr>f_title = quiz_title (quiz twoQuestionState),
             f_assignments = assignments (quiz twoQuestionState),
             f_learner_ids = learner_ids (quiz twoQuestionState),
             f_collection = collection (quiz twoQuestionState),
             f_learners_see_fixed_order = learners_see_fixed_order (quiz twoQuestionState),
             f_instant_report_visibility = instant_report_visibility (quiz twoQuestionState),
             f_draft = draft (quiz twoQuestionState), f_active = active (quiz twoQuestionState),
             f_archive = archive (quiz twoQuestionState),
             f_question_sources =
               (if draft (quiz twoQuestionState)
                then Some (map (\<lambda>section.
                        \<lparr>ss_section_title = section_title section,
                         ss_description = description section,
                         ss_questions =
                           map (\<lambda>q. \<lparr>sq_exercise_id = exercise_id q,
                                      sq_question_id = question_id q,
                                      sq_counter_in_exercise = counter_in_exercise q,
                                      sq_title = title q\<rparr>)
                             (questions section),
                         ss_section_fixed_order = section_fixed_order section\<rparr>)
                      (question_sources (quiz twoQuestionState)))
                else None)\<rparr>\<rparr>]"
    by blast
  then have "map req_id (saveCalls (fst (saveQuiz exampleEnv twoQuestionState))) = [None]"
    and "map (f_question_sources \<circ> req_data)
           (saveCalls (fst (saveQuiz exampleEnv twoQuestionState)))
     = [Some [\<lparr>ss_section_title = [], ss_description = [],
               ss_questions =
                 [\<lparr>sq_exercise_id = ''E1'', sq_question_id = ''a'',
                   sq_counter_in_exercise = 1, sq_title = ''Fractions''\<rparr>,
                  \<lparr>sq_exercise_id = ''E2'', sq_question_id = ''b'',
                   sq_counter_in_exercise = 1, sq_title = ''Decimals''\<rparr>],
               ss_section_fixed_order = False\<rparr>]]"
    by (simp_all add: twoQuestionState_eq defaultQuizSection_def questionA_def questionB_def)
  with v t c show ?thesis by simp
qed

subsection \<open>Selecting more questions than the pool has\<close>

text \<open>
  C4. \<open>addQuestionsToSectionFromResources\<close> throws a TypeError when the resource pool
  is missing or empty and when the question count is missing or less than 1; and it
  throws when the questions of the pool whose item is not yet in the quiz are fewer
  than the count. The state is as before in each case.
\<close>

theorem addQuestionsToSectionFromResources_throws:
  "addQuestionsToSectionFromResources env s i None questionCount seed = Inl (TypeError, s) \<and>
   addQuestionsToSectionFromResources env s i (Some []) questionCount seed = Inl (TypeError, s) \<and>
   addQuestionsToSectionFromResources env s i resourcePool None seed = Inl (TypeError, s) \<and>
   (n < 1 \<longrightarrow>
      addQuestionsToSectionFromResources env s i resourcePool (Some n) seed
        = Inl (TypeError, s)) \<and>
   (int (length (questionPool pool (map item (allQuestionsInQuiz s)))) < n \<longrightarrow>
      (\<exists>e. addQuestionsToSectionFromResources env s i (Some pool) (Some n) seed = Inl (e, s))) \<and>
   (i < length (allSections s) \<and> pool \<noteq> [] \<and> 1 \<le> n \<and>
    int (length (questionPool pool (map item (allQuestionsInQuiz s)))) < n \<longrightarrow>
      addQuestionsToSectionFromResources env s i (Some pool) (Some n) seed = Inl (Error, s))"
  by (auto simp: addQuestionsToSectionFromResources_def selectQuestions_def Let_def at_index_def
      split: option.splits)

theorem addQuestionsToSectionFromResources_throws_witness:
  "int (length (questionPool [exerciseA] (map item (allQuestionsInQuiz twoQuestionState)))) < 2 \<and>
   addQuestionsToSectionFromResources exampleEnv twoQuestionState 0 (Some [exerciseA]) (Some 2) 7
     = Inl (Error, twoQuestionState) \<and>
   addQuestionsToSectionFromResources exampleEnv twoQuestionState 0 (Some [exerciseA]) (Some 0) 7
     = Inl (TypeError, twoQuestionState)"
proof -
  have a: "allQuestionsInQuiz twoQuestionState = [questionA, questionB]"
    by (simp add: twoQuestionState_eq allQuestionsInQuiz_def allSections_def)
  have p: "questionPool [exerciseA] [''E1:a'', ''E2:b''] = [questionA2]"
    by (simp add: questionPool_def exerciseToQuestionArray_def exerciseA_def compositeItem_def
        questionA2_def enumerate_eq_zip upt_rec)
  have l: "int (length (questionPool [exerciseA]
             (map item (allQuestionsInQuiz twoQuestionState)))) < 2"
    by (simp add: a p questionA_def questionB_def)
  have i: "0 < length (allSections twoQuestionState)"
    by (simp add: twoQuestionState_eq allSections_def)
  from addQuestionsToSectionFromResources_throws
         [of exampleEnv twoQuestionState 0 "Some 2" 7 "Some [exerciseA]" 2 "[exerciseA]"] l i
  have "addQuestionsToSectionFromResources exampleEnv twoQuestionState 0 (Some [exerciseA])
          (Some 2) 7 = Inl (Error, twoQuestionState)"
    by simp
  moreover
  from addQuestionsToSectionFromResources_throws
         [of exampleEnv twoQuestionState 0 "Some 0" 7 "Some [exerciseA]" 0 "[exerciseA]"]
  have "addQuestionsToSectionFromResources exampleEnv twoQuestionState 0 (Some [exerciseA])
          (Some 0) 7 = Inl (TypeError, twoQuestionState)"
    by simp
  ultimately show ?thesis using l by simp
qed

subsection \<open>The cache is keyed by exercise id\<close>

lemma cacheExercises_Nil: "cacheExercises [] m = m"
  by (simp add: cacheExercises_def)

lemma cacheExercises_Cons: "cacheExercises (x # xs) m = cacheExercises xs (m(ex_id x \<mapsto> x))"
  by (simp add: cacheExercises_def)

lemma cacheExercises_lookup:
  "cacheExercises pool m k = Some e \<Longrightarrow> m k = Some e \<or> (e \<in> set pool \<and> ex_id e = k)"
proof (induction pool arbitrary: m)
  case Nil
  then show ?case by (simp add: cacheExercises_Nil)
next
  case (Cons x xs)
  from Cons.prems have "cacheExercises xs (m(ex_id x \<mapsto> x)) k = Some e"
    by (simp only: cacheExercises_Cons)
  from Cons.IH [OF this] show ?case
    by (auto split: if_splits)
qed

lemma cacheExercises_keyed:
  assumes "\<And>k e. m k = Some e \<Longrightarrow> ex_id e = k"
    and "cacheExercises pool m k = Some e"
  shows "ex_id e = k"
  using cacheExercises_lookup [OF assms(2)] assms(1) by blast

lemma cache_shape_updateSection:
  "\<exists>pool. exerciseMap (stateAfter (updateSection env s i u))
            = cacheExercises pool (exerciseMap s)"
proof (cases "updateSection env s i u")
  case (Inl thrown)
  obtain e s' where "thrown = (e, s')" by (cases thrown)
  with Inl updateSection_Inl [of env s i u e s']
  have "exerciseMap (stateAfter (updateSection env s i u)) = cacheExercises [] (exerciseMap s)"
    by (simp add: cacheExercises_def)
  then show ?thesis ..
next
  case (Inr s')
  from updateSection_Inr [OF Inr] Inr
  have "exerciseMap (stateAfter (updateSection env s i u))
          = cacheExercises (case u_resourcePool u of None \<Rightarrow> [] | Some pool \<Rightarrow> pool)
              (exerciseMap s)"
    by (simp add: cacheExercises_def split: option.splits)
  then show ?thesis ..
qed

lemma cache_shape_updateSectionReplaced:
  "\<exists>pool'. exerciseMap (stateAfter (updateSectionReplaced env s i qs pool))
            = cacheExercises pool' (exerciseMap s)"
proof (cases "those qs")
  case None
  then have "exerciseMap (stateAfter (updateSectionReplaced env s i qs pool))
               = cacheExercises [] (exerciseMap s)"
    by (simp add: updateSectionReplaced_def cacheExercises_def)
  then show ?thesis ..
next
  case (Some qs')
  then show ?thesis
    using cache_shape_updateSection [of env s i "questionsUpdate qs' pool"]
    by (simp add: updateSectionReplaced_def)
qed

lemma cache_shape_same:
  "exerciseMap s' = exerciseMap s \<Longrightarrow> \<exists>pool. exerciseMap s' = cacheExercises pool (exerciseMap s)"
  by (rule exI [of _ "[]"]) (simp add: cacheExercises_def)

lemma addQuestionsToSectionFromResources_cases:
  "(\<exists>e. addQuestionsToSectionFromResources env s i pool n seed = Inl (e, s)) \<or>
   (\<exists>u. addQuestionsToSectionFromResources env s i pool n seed = updateSection env s i u)"
  by (simp add: addQuestionsToSectionFromResources_def split: option.split sum.split) blast

lemma addQuestionsToSection_cases:
  "(\<exists>e. addQuestionsToSection env s i qs resources its = Inl (e, s)) \<or>
   (\<exists>u. addQuestionsToSection env s i qs resources its = updateSection env s i u) \<or>
   (\<exists>qs' pool. addQuestionsToSection env s i qs resources its
                  = updateSectionReplaced env s i qs' pool)"
  by (simp add: addQuestionsToSection_def Let_def split: option.split sum.split) blast

lemma autoReplaceQuestions_cases:
  "autoReplaceQuestions env s its = Inr s \<or>
   (\<exists>e. autoReplaceQuestions env s its = Inl (e, s)) \<or>
   (\<exists>qs' pool. autoReplaceQuestions env s its
                  = updateSectionReplaced env s (activeSectionIndex s) qs' pool)"
  by (simp add: autoReplaceQuestions_def Let_def split: sum.split) blast

lemma cache_shape_step:
  "\<exists>pool. exerciseMap (stateAfter (step env s x)) = cacheExercises pool (exerciseMap s)"
proof (cases x)
  case (UpdateSection i u)
  then show ?thesis by (simp add: cache_shape_updateSection)
next
  case (AddQuestionsToSectionFromResources i pool n seed)
  then show ?thesis
    using addQuestionsToSectionFromResources_cases [of env s i pool n seed]
      cache_shape_same [of s s]
    by (auto simp: cache_shape_updateSection)
next
  case (AddQuestionsToSection i qs resources its)
  then show ?thesis
    using addQuestionsToSection_cases [of env s i qs resources its] cache_shape_same [of s s]
    by (auto simp: cache_shape_updateSection cache_shape_updateSectionReplaced)
next
  case (AddSection sid)
  then show ?thesis by (simp add: cache_shape_same cache_addSection)
next
  case (RemoveSection i sid)
  then show ?thesis by (simp add: cache_shape_same cache_removeSection)
next
  case (InitializeQuiz c fetched sid)
  show ?thesis
  proof (cases fetched)
    case None
    then have "exerciseMap (stateAfter (initializeQuiz env s c fetched sid)) = exerciseMap s"
      by (simp add: initializeQuiz_def addSection_def updateQuiz_def Let_def)
    then show ?thesis using InitializeQuiz by (simp add: cache_shape_same)
  next
    case (Some f)
    obtain q exercises where "f = (q, exercises)" by (cases f)
    with Some have "exerciseMap (stateAfter (initializeQuiz env s c fetched sid))
                      = cacheExercises exercises (exerciseMap s)"
      by (simp add: initializeQuiz_def addSection_def updateQuiz_def Let_def)
    then show ?thesis using InitializeQuiz by auto
  qed
next
  case SaveQuiz
  then show ?thesis by (simp add: saveQuiz_def cache_shape_same)
next
  case (SaveQuizThen id0 examId)
  then show ?thesis by (simp add: cache_shape_same cache_saveQuizThen)
next
  case (UpdateQuiz u)
  then show ?thesis by (simp add: cache_shape_same cache_updateQuiz)
next
  case (AddQuestionsToSelection ids)
  then show ?thesis by (simp add: addQuestionsToSelection_def cache_shape_same)
next
  case (RemoveQuestionsFromSelection ids)
  then show ?thesis by (simp add: removeQuestionsFromSelection_def cache_shape_same)
next
  case ClearSelectedQuestions
  then show ?thesis by (simp add: clearSelectedQuestions_def cache_shape_same)
next
  case (SetQuestionItemsToReplace its)
  then show ?thesis by (simp add: setQuestionItemsToReplace_def cache_shape_same)
next
  case (Navigate i)
  then show ?thesis by (simp add: navigate_def cache_shape_same)
next
  case DeleteActiveSelectedQuestions
  show ?thesis
  proof (cases "activeSection s")
    case None
    then show ?thesis
      using DeleteActiveSelectedQuestions
      by (simp add: deleteActiveSelectedQuestions_def cache_shape_same)
  next
    case (Some sec)
    define u where
      "u = questionsUpdate
             (filter (\<lambda>q. item q \<notin> set (selectedQuestionIds s)) (questions sec)) None"
    have "exerciseMap (stateAfter (deleteActiveSelectedQuestions env s))
            = exerciseMap (stateAfter (updateSection env s (activeSectionIndex s) u))"
      using Some
      by (cases "updateSection env s (activeSectionIndex s) u")
         (auto simp: deleteActiveSelectedQuestions_def Let_def u_def)
    then show ?thesis
      using DeleteActiveSelectedQuestions cache_shape_updateSection [of env s _ u] by simp
  qed
next
  case (AutoReplaceQuestions its)
  then show ?thesis
    using autoReplaceQuestions_cases [of env s its] cache_shape_same [of s s]
    by (auto simp: cache_shape_updateSectionReplaced)
qed

lemma cacheKeyed_initialState: "cacheKeyed initialState"
  by (simp add: cacheKeyed_def initialState_def)

lemma cacheKeyed_step: "cacheKeyed s \<Longrightarrow> cacheKeyed (stateAfter (step env s x))"
proof -
  assume k: "cacheKeyed s"
  obtain pool where p: "exerciseMap (stateAfter (step env s x)) = cacheExercises pool (exerciseMap s)"
    using cache_shape_step by blast
  have "ex_id e = j" if "exerciseMap (stateAfter (step env s x)) j = Some e" for j e
  proof (rule cacheExercises_keyed [of "exerciseMap s" pool j e])
    show "\<And>k e. exerciseMap s k = Some e \<Longrightarrow> ex_id e = k"
      using k by (simp add: cacheKeyed_def)
    show "cacheExercises pool (exerciseMap s) j = Some e"
      using that by (simp only: p)
  qed
  then show ?thesis
    by (simp add: cacheKeyed_def)
qed

subsection \<open>The map of unused questions\<close>

lemma set_uniq: "set (uniq xs) = set xs"
  by (induction xs rule: uniq.induct) auto

lemma those_eq_Some: "those xs = Some ys \<longleftrightarrow> xs = map Some ys"
proof (induction xs arbitrary: ys)
  case Nil
  then show ?case by auto
next
  case (Cons x xs)
  then show ?case
    by (cases x; cases ys) (auto split: option.splits)
qed

lemma those_eq_None: "those xs = None \<longleftrightarrow> None \<in> set xs"
proof (induction xs)
  case Nil
  then show ?case by simp
next
  case (Cons x xs)
  then show ?case by (cases x) (auto split: option.splits)
qed

lemma foldl_upd_lookup:
  "inj_on f (set xs) \<Longrightarrow> e \<in> set xs \<Longrightarrow>
   foldl (\<lambda>m x. m(f x \<mapsto> g x)) m0 xs (f e) = Some (g e)"
proof (induction xs rule: rev_induct)
  case Nil
  then show ?case by simp
next
  case (snoc x xs)
  show ?case
  proof (cases "f e = f x")
    case True
    with snoc.prems have "e = x" by (auto simp: inj_on_def)
    then show ?thesis by simp
  next
    case False
    with snoc.prems have "e \<in> set xs" and "inj_on f (set xs)"
      by (auto simp: inj_on_def)
    with snoc.IH False show ?thesis by simp
  qed
qed

lemma unusedQuestions_eq:
  "unusedQuestions s exercise =
     filter (\<lambda>qid. qid \<notin> item ` set (allQuestionsInQuiz s))
       (map (\<lambda>aid. ex_id exercise @ '':'' @ aid) (assessment_item_ids exercise))"
proof -
  have "\<And>qid. (find (\<lambda>q. item q = qid) (allQuestionsInQuiz s) = None)
           = (qid \<notin> item ` set (allQuestionsInQuiz s))"
    by (auto simp: find_None_iff)
  then show ?thesis
    by (simp add: unusedQuestions_def compositeItem_def)
qed

text \<open>
  C8. In a state whose cache is keyed by exercise id (as every write to the cache
  keeps it), the map of unused questions exists when the exercise of every active
  question is cached, and its entry for an exercise of the active resource map is
  the list of the composites \<open>exercise id : assessment item id\<close>, in the order of the
  assessment items, without those that are the item of a question of the quiz.
\<close>

theorem activeExercisesUnusedQuestionsMap_spec:
  "cacheKeyed s \<Longrightarrow>
   ((\<forall>q\<in>set (activeQuestions s). exerciseMap s (exercise_id q) \<noteq> None) \<longrightarrow>
      (\<exists>m. activeExercisesUnusedQuestionsMap s = Inr m)) \<and>
   (activeExercisesUnusedQuestionsMap s = Inr m \<and>
    (k, Some exercise) \<in> set (activeResourceMap s) \<longrightarrow>
      m (ex_id exercise) =
        Some (filter (\<lambda>qid. qid \<notin> item ` set (allQuestionsInQuiz s))
               (map (\<lambda>aid. ex_id exercise @ '':'' @ aid) (assessment_item_ids exercise))))"
proof (intro conjI impI)
  assume "\<forall>q\<in>set (activeQuestions s). exerciseMap s (exercise_id q) \<noteq> None"
  then have "None \<notin> set (map snd (activeResourceMap s))"
    by (auto simp: activeResourceMap_def set_uniq)
  then have "those (map snd (activeResourceMap s)) \<noteq> None"
    by (simp only: those_eq_None not_False_eq_True)
  then show "\<exists>m. activeExercisesUnusedQuestionsMap s = Inr m"
    by (auto simp: activeExercisesUnusedQuestionsMap_def)
next
  assume keyed: "cacheKeyed s"
  assume "activeExercisesUnusedQuestionsMap s = Inr m \<and>
          (k, Some exercise) \<in> set (activeResourceMap s)"
  then have r: "activeExercisesUnusedQuestionsMap s = Inr m"
    and mem: "(k, Some exercise) \<in> set (activeResourceMap s)"
    by simp_all
  from r obtain exercises where
    th: "those (map snd (activeResourceMap s)) = Some exercises" and
    m: "m = foldl (\<lambda>m exercise. m(ex_id exercise \<mapsto> unusedQuestions s exercise))
              Map.empty exercises"
    by (auto simp: activeExercisesUnusedQuestionsMap_def split: option.splits)
  from th have vals: "map snd (activeResourceMap s) = map Some exercises"
    by (simp add: those_eq_Some)
  from mem have "Some exercise \<in> set (map snd (activeResourceMap s))"
    by force
  with vals have ex: "exercise \<in> set exercises"
    by auto
  have cached: "exerciseMap s (ex_id e) = Some e" if "e \<in> set exercises" for e
  proof -
    from that vals have "Some e \<in> set (map snd (activeResourceMap s))"
      by simp
    then obtain k' where "exerciseMap s k' = Some e"
      by (auto simp: activeResourceMap_def)
    with keyed show ?thesis
      by (auto simp: cacheKeyed_def)
  qed
  have inj: "inj_on ex_id (set exercises)"
  proof (rule inj_onI)
    fix a b
    assume a: "a \<in> set exercises" and b: "b \<in> set exercises" and ab: "ex_id a = ex_id b"
    from cached [OF a] have "exerciseMap s (ex_id b) = Some a" by (simp only: ab)
    with cached [OF b] show "a = b" by simp
  qed
  have "foldl (\<lambda>m exercise. m(ex_id exercise \<mapsto> unusedQuestions s exercise))
          Map.empty exercises (ex_id exercise) = Some (unusedQuestions s exercise)"
    by (rule foldl_upd_lookup [OF inj ex])
  then have "m (ex_id exercise) = Some (unusedQuestions s exercise)"
    by (simp only: m)
  then show "m (ex_id exercise) =
        Some (filter (\<lambda>qid. qid \<notin> item ` set (allQuestionsInQuiz s))
               (map (\<lambda>aid. ex_id exercise @ '':'' @ aid) (assessment_item_ids exercise)))"
    by (simp only: unusedQuestions_eq)
qed

theorem activeExercisesUnusedQuestionsMap_spec_witness:
  "cacheKeyed twoQuestionState \<and>
   (''E1'', Some exerciseA) \<in> set (activeResourceMap twoQuestionState) \<and>
   (\<exists>m. activeExercisesUnusedQuestionsMap twoQuestionState = Inr m \<and>
        m ''E1'' = Some [''E1:a2''])"
proof -
  have k: "cacheKeyed twoQuestionState"
    by (simp add: cacheKeyed_def twoQuestionState_eq exerciseA_def exerciseB_def)
  have a: "activeQuestions twoQuestionState = [questionA, questionB]"
    by (simp add: activeQuestions_def activeSection_def at_index_def allSections_def
        twoQuestionState_eq)
  have q: "allQuestionsInQuiz twoQuestionState = [questionA, questionB]"
    by (simp add: twoQuestionState_eq allQuestionsInQuiz_def allSections_def)
  have e: "exerciseMap twoQuestionState ''E1'' = Some exerciseA"
    "exerciseMap twoQuestionState ''E2'' = Some exerciseB"
    by (simp_all add: twoQuestionState_eq)
  have arm: "activeResourceMap twoQuestionState
               = [(''E1'', Some exerciseA), (''E2'', Some exerciseB)]"
    by (simp add: activeResourceMap_def a questionA_def questionB_def e)
  have c: "\<forall>q\<in>set (activeQuestions twoQuestionState).
             exerciseMap twoQuestionState (exercise_id q) \<noteq> None"
    by (simp add: a questionA_def questionB_def e)
  with activeExercisesUnusedQuestionsMap_spec [OF k]
  obtain m where m: "activeExercisesUnusedQuestionsMap twoQuestionState = Inr m"
    by blast
  from activeExercisesUnusedQuestionsMap_spec [OF k, of m "''E1''" exerciseA] m arm
  have "m (ex_id exerciseA) =
        Some (filter (\<lambda>qid. qid \<notin> item ` set (allQuestionsInQuiz twoQuestionState))
               (map (\<lambda>aid. ex_id exerciseA @ '':'' @ aid) (assessment_item_ids exerciseA)))"
    by simp
  then have "m ''E1'' = Some [''E1:a2'']"
    by (simp add: q exerciseA_def questionA_def questionB_def)
  with k arm m show ?thesis by simp
qed

subsection \<open>The bound on the questions of a section\<close>

lemma sectionsBounded_boundedSections:
  "sectionsBounded env s = boundedSections env (question_sources (quiz s))"
  by (simp add: sectionsBounded_def boundedSections_def allSections_def)

lemma boundedSections_append:
  "boundedSections env (xs @ ys) \<longleftrightarrow> boundedSections env xs \<and> boundedSections env ys"
  by (simp add: boundedSections_def)

lemma boundedSections_take: "boundedSections env xs \<Longrightarrow> boundedSections env (take n xs)"
  by (auto simp: boundedSections_def list_all_iff dest: in_set_takeD)

lemma boundedSections_drop: "boundedSections env xs \<Longrightarrow> boundedSections env (drop n xs)"
  by (auto simp: boundedSections_def list_all_iff dest: in_set_dropD)

lemma boundedSections_nth:
  "boundedSections env xs \<Longrightarrow> i < length xs \<Longrightarrow>
     length (questions (xs ! i)) \<le> MAX_QUESTIONS_PER_QUIZ_SECTION env"
  by (simp add: boundedSections_def list_all_length)

lemma boundedSections_default: "boundedSections env [defaultQuizSection sid]"
  by (simp add: boundedSections_def defaultQuizSection_def)

lemma bounded_same_quiz: "quiz s' = quiz s \<Longrightarrow> sectionsBounded env s' = sectionsBounded env s"
  by (simp add: sectionsBounded_boundedSections)

lemma updateSection_accepts:
  "updateSection env s i u = Inr s' \<Longrightarrow> u_questions u = Some qs \<Longrightarrow>
     length qs \<le> MAX_QUESTIONS_PER_QUIZ_SECTION env \<and> \<not> list_ex (\<lambda>q. \<not> validateQuestion env q) qs"
  by (auto simp: updateSection_def Let_def split: option.splits if_splits)

lemma boundedSections_update:
  assumes "boundedSections env xs"
    and "length (questions y) \<le> MAX_QUESTIONS_PER_QUIZ_SECTION env"
  shows "boundedSections env (xs[i := y])"
proof -
  have "set (xs[i := y]) \<subseteq> insert y (set xs)"
    by (rule set_update_subset_insert)
  with assms show ?thesis
    by (auto simp: boundedSections_def list_all_iff)
qed

lemma bounded_updateSection:
  assumes "sectionsBounded env s"
  shows "sectionsBounded env (stateAfter (updateSection env s i u))"
proof (cases "updateSection env s i u")
  case (Inl thrown)
  obtain e s' where t: "thrown = (e, s')" by (cases thrown)
  from Inl t have "updateSection env s i u = Inl (e, s')" by simp
  from updateSection_Inl [OF this] have "quiz s' = quiz s" by simp
  then have "sectionsBounded env s' = sectionsBounded env s"
    by (rule bounded_same_quiz)
  with assms Inl t show ?thesis by simp
next
  case (Inr s')
  have i: "i < length (allSections s)"
    and a: "allSections s' = (allSections s)[i := spreadSection (allSections s ! i) u]"
    using updateSection_sections [OF Inr] by simp_all
  from assms have b: "boundedSections env (allSections s)"
    by (simp add: sectionsBounded_boundedSections allSections_def)
  have "length (questions (spreadSection (allSections s ! i) u))
          \<le> MAX_QUESTIONS_PER_QUIZ_SECTION env"
  proof (cases "u_questions u")
    case None
    from boundedSections_nth [OF b i] None show ?thesis
      by (simp add: spreadSection_fields)
  next
    case (Some qs)
    from updateSection_accepts [OF Inr Some] Some show ?thesis
      by (simp add: spreadSection_fields)
  qed
  from boundedSections_update [OF b this, of i] a
  have "boundedSections env (allSections s')" by simp
  with Inr show ?thesis
    by (simp add: sectionsBounded_boundedSections allSections_def)
qed

lemma bounded_updateSectionReplaced:
  "sectionsBounded env s \<Longrightarrow>
     sectionsBounded env (stateAfter (updateSectionReplaced env s i qs pool))"
  by (cases "those qs")
     (simp_all add: updateSectionReplaced_def bounded_updateSection
        sectionsBounded_boundedSections [of env "s\<lparr>quizHasChanged := True\<rparr>"]
        sectionsBounded_boundedSections [of env s])

lemma bounded_updateQuiz:
  assumes "sectionsBounded env s"
    and "case u_question_sources u of None \<Rightarrow> True | Some secs \<Rightarrow> boundedSections env secs"
  shows "sectionsBounded env (stateAfter (updateQuiz env s u))"
  using assms
  by (auto simp: updateQuiz_def Let_def sectionsBounded_boundedSections spreadQuiz_def
      split: option.splits)

lemma bounded_addSection:
  "sectionsBounded env s \<Longrightarrow> sectionsBounded env (stateAfter (addSection env s sid))"
  unfolding addSection_def Let_def
  by (rule bounded_updateQuiz)
     (simp_all add: noQuizUpdates_def boundedSections_append boundedSections_default
        sectionsBounded_boundedSections)

lemma bounded_removeSection:
  assumes "sectionsBounded env s"
  shows "sectionsBounded env (stateAfter (removeSection env s i sid))"
proof (cases "at_index (allSections s) i")
  case None
  with assms show ?thesis by (simp add: removeSection_def)
next
  case (Some sec)
  define u where "u = noQuizUpdates\<lparr>u_question_sources :=
                        Some (take i (allSections s) @ drop (i + 1) (allSections s))\<rparr>"
  from assms have "boundedSections env (allSections s)"
    by (simp add: sectionsBounded_boundedSections allSections_def)
  then have "boundedSections env (take i (allSections s) @ drop (i + 1) (allSections s))"
    by (simp only: boundedSections_append boundedSections_take boundedSections_drop simp_thms)
  then have b1: "sectionsBounded env (stateAfter (updateQuiz env s u))"
    using assms by (intro bounded_updateQuiz) (simp_all add: u_def)
  show ?thesis
  proof (cases "updateQuiz env s u")
    case (Inl thrown)
    with b1 Some show ?thesis
      by (cases thrown) (simp add: removeSection_def u_def)
  next
    case (Inr s1)
    with b1 have "sectionsBounded env s1" by simp
    from bounded_addSection [OF this, of sid] this Some Inr show ?thesis
      by (simp add: removeSection_def u_def)
  qed
qed

lemma bounded_initializeQuiz:
  assumes "sectionsBounded env s"
    and "respectsBound env (InitializeQuiz c fetched sid)"
  shows "sectionsBounded env (stateAfter (initializeQuiz env s c fetched sid))"
proof (cases fetched)
  case None
  define s1 where "s1 = s\<lparr>quiz := defaultQuiz c [c]\<rparr>"
  have "sectionsBounded env s1"
    by (simp add: s1_def sectionsBounded_boundedSections defaultQuiz_def boundedSections_def)
  from bounded_addSection [OF this, of sid] None show ?thesis
    by (cases "addSection env s1 sid")
       (auto simp: initializeQuiz_def s1_def sectionsBounded_boundedSections)
next
  case (Some f)
  obtain q exercises where f: "f = (q, exercises)" by (cases f)
  define s1 where "s1 = s\<lparr>exerciseMap := cacheExercises exercises (exerciseMap s), quiz := q\<rparr>"
  from assms(2) Some f have b: "sectionsBounded env s1"
    by (simp add: s1_def sectionsBounded_boundedSections)
  from bounded_addSection [OF b, of sid] b Some f show ?thesis
    by (cases "addSection env s1 sid")
       (auto simp: initializeQuiz_def s1_def Let_def sectionsBounded_boundedSections)
qed

lemma bounded_saveQuizThen:
  assumes "sectionsBounded env s"
  shows "sectionsBounded env (stateAfter (saveQuizThen env s id0 examId))"
proof -
  define u where "u = noQuizUpdates\<lparr>u_quiz_id := Some (Some examId)\<rparr>"
  have "sectionsBounded env (stateAfter (updateQuiz env s u))"
    using assms by (intro bounded_updateQuiz) (simp_all add: u_def noQuizUpdates_def)
  with assms show ?thesis
    by (cases "updateQuiz env s u")
       (auto simp: saveQuizThen_def u_def sectionsBounded_boundedSections)
qed

lemma bounded_deleteActiveSelectedQuestions:
  assumes "sectionsBounded env s"
  shows "sectionsBounded env (stateAfter (deleteActiveSelectedQuestions env s))"
proof (cases "activeSection s")
  case None
  with assms show ?thesis by (simp add: deleteActiveSelectedQuestions_def)
next
  case (Some sec)
  define u where
    "u = questionsUpdate
           (filter (\<lambda>q. item q \<notin> set (selectedQuestionIds s)) (questions sec)) None"
  from bounded_updateSection [OF assms, of "activeSectionIndex s" u] Some show ?thesis
    by (cases "updateSection env s (activeSectionIndex s) u")
       (auto simp: deleteActiveSelectedQuestions_def Let_def u_def
          sectionsBounded_boundedSections)
qed

lemma bounded_step:
  assumes "sectionsBounded env s" and "respectsBound env x"
  shows "sectionsBounded env (stateAfter (step env s x))"
proof (cases x)
  case (UpdateSection i u)
  with assms show ?thesis by (simp add: bounded_updateSection)
next
  case (AddQuestionsToSectionFromResources i pool n seed)
  with assms addQuestionsToSectionFromResources_cases [of env s i pool n seed]
  show ?thesis by (auto simp: bounded_updateSection)
next
  case (AddQuestionsToSection i qs resources its)
  with assms addQuestionsToSection_cases [of env s i qs resources its]
  show ?thesis by (auto simp: bounded_updateSection bounded_updateSectionReplaced)
next
  case (AddSection sid)
  with assms show ?thesis by (simp add: bounded_addSection)
next
  case (RemoveSection i sid)
  with assms show ?thesis by (simp add: bounded_removeSection)
next
  case (InitializeQuiz c fetched sid)
  with assms show ?thesis by (simp add: bounded_initializeQuiz)
next
  case SaveQuiz
  with assms show ?thesis by (simp add: saveQuiz_def)
next
  case (SaveQuizThen id0 examId)
  with assms show ?thesis by (simp add: bounded_saveQuizThen)
next
  case (UpdateQuiz u)
  with assms show ?thesis by (simp add: bounded_updateQuiz)
next
  case (AddQuestionsToSelection ids)
  with assms show ?thesis
    by (simp add: addQuestionsToSelection_def sectionsBounded_boundedSections)
next
  case (RemoveQuestionsFromSelection ids)
  with assms show ?thesis
    by (simp add: removeQuestionsFromSelection_def sectionsBounded_boundedSections)
next
  case ClearSelectedQuestions
  with assms show ?thesis
    by (simp add: clearSelectedQuestions_def sectionsBounded_boundedSections)
next
  case (SetQuestionItemsToReplace its)
  with assms show ?thesis
    by (simp add: setQuestionItemsToReplace_def sectionsBounded_boundedSections)
next
  case (Navigate i)
  with assms show ?thesis
    by (simp add: navigate_def sectionsBounded_boundedSections)
next
  case DeleteActiveSelectedQuestions
  with assms show ?thesis by (simp add: bounded_deleteActiveSelectedQuestions)
next
  case (AutoReplaceQuestions its)
  with assms autoReplaceQuestions_cases [of env s its]
  show ?thesis by (auto simp: bounded_updateSectionReplaced)
qed

lemma bounded_reachable: "reachable env s \<Longrightarrow> sectionsBounded env s"
proof (induction rule: reachable.induct)
  case reachable_initial
  show ?case
    by (simp add: sectionsBounded_boundedSections initialState_def defaultQuiz_def
        boundedSections_def)
next
  case (reachable_step s x)
  then show ?case by (simp add: bounded_step)
qed

text \<open>
  C3, as the code has it. \<open>updateSection\<close> throws a TypeError when the questions
  array has more than \<open>MAX_QUESTIONS_PER_QUIZ_SECTION\<close> elements or holds a question
  that is not valid. Whenever it throws, the error is a TypeError and the state is
  the one before the call except that \<open>quizHasChanged\<close> is true: the quiz object, the
  exercise cache and the selection are unchanged. Every section of every state
  reached from the initial one, by operations that do not install over-long
  sections from outside, holds at most the maximum number of questions.
\<close>

theorem updateSection_bound:
  "(u_questions u = Some qs \<and>
    (MAX_QUESTIONS_PER_QUIZ_SECTION env < length qs \<or> (\<exists>q\<in>set qs. \<not> validateQuestion env q)) \<longrightarrow>
      updateSection env s i u = Inl (TypeError, s\<lparr>quizHasChanged := True\<rparr>)) \<and>
   (updateSection env s i u = Inl (e, s') \<longrightarrow>
      e = TypeError \<and> s' = s\<lparr>quizHasChanged := True\<rparr> \<and> quiz s' = quiz s \<and>
      exerciseMap s' = exerciseMap s) \<and>
   (reachable env t \<longrightarrow>
      (\<forall>section\<in>set (allSections t).
         length (questions section) \<le> MAX_QUESTIONS_PER_QUIZ_SECTION env))"
proof (intro conjI impI)
  assume "u_questions u = Some qs \<and>
    (MAX_QUESTIONS_PER_QUIZ_SECTION env < length qs \<or> (\<exists>q\<in>set qs. \<not> validateQuestion env q))"
  then show "updateSection env s i u = Inl (TypeError, s\<lparr>quizHasChanged := True\<rparr>)"
    by (auto simp: updateSection_def Let_def list_ex_iff split: option.splits)
next
  assume "updateSection env s i u = Inl (e, s')"
  from updateSection_Inl [OF this]
  show "e = TypeError" and "s' = s\<lparr>quizHasChanged := True\<rparr>" and "quiz s' = quiz s"
    and "exerciseMap s' = exerciseMap s"
    by simp_all
next
  assume "reachable env t"
  from bounded_reachable [OF this]
  show "\<forall>section\<in>set (allSections t).
          length (questions section) \<le> MAX_QUESTIONS_PER_QUIZ_SECTION env"
    by (simp add: sectionsBounded_def list_all_iff)
qed

lemma reachable_newQuizState: "reachable exampleEnv newQuizState"
proof -
  have "reachable exampleEnv
          (stateAfter (step exampleEnv initialState (InitializeQuiz ''c1'' None ''s1'')))"
    by (rule reachable_step [OF reachable_initial]) simp
  then show ?thesis by (simp add: newQuizState_def)
qed

lemma reachable_twoQuestionState: "reachable exampleEnv twoQuestionState"
proof -
  have "reachable exampleEnv
          (stateAfter (step exampleEnv newQuizState
             (AddQuestionsToSection 0 (Some [questionA, questionB])
                (Some [exerciseA, exerciseB]) None)))"
    by (rule reachable_step [OF reachable_newQuizState]) simp
  then show ?thesis by (simp add: twoQuestionState_def)
qed

theorem updateSection_bound_witness:
  "u_questions (questionsUpdate [questionA, questionA2, questionB] None)
     = Some [questionA, questionA2, questionB] \<and>
   MAX_QUESTIONS_PER_QUIZ_SECTION exampleEnv < length [questionA, questionA2, questionB] \<and>
   updateSection exampleEnv twoQuestionState 0
       (questionsUpdate [questionA, questionA2, questionB] None)
     = Inl (TypeError, twoQuestionState\<lparr>quizHasChanged := True\<rparr>) \<and>
   reachable exampleEnv twoQuestionState \<and>
   list_all (\<lambda>section. length (questions section) \<le> 2) (allSections twoQuestionState)"
proof -
  have u: "u_questions (questionsUpdate [questionA, questionA2, questionB] None)
             = Some [questionA, questionA2, questionB]"
    by (simp add: questionsUpdate_def)
  have l: "MAX_QUESTIONS_PER_QUIZ_SECTION exampleEnv < length [questionA, questionA2, questionB]"
    by (simp add: exampleEnv_def)
  note t = updateSection_bound [of "questionsUpdate [questionA, questionA2, questionB] None"
      "[questionA, questionA2, questionB]" exampleEnv twoQuestionState 0 TypeError
      twoQuestionState twoQuestionState]
  from t u l have "updateSection exampleEnv twoQuestionState 0
       (questionsUpdate [questionA, questionA2, questionB] None)
     = Inl (TypeError, twoQuestionState\<lparr>quizHasChanged := True\<rparr>)"
    by blast
  moreover from t reachable_twoQuestionState
  have "\<forall>section\<in>set (allSections twoQuestionState).
          length (questions section) \<le> MAX_QUESTIONS_PER_QUIZ_SECTION exampleEnv"
    by blast
  then have "list_all (\<lambda>section. length (questions section) \<le> 2) (allSections twoQuestionState)"
    by (simp add: list_all_iff exampleEnv_def)
  ultimately show ?thesis
    using u l reachable_twoQuestionState by simp
qed

text \<open>
  The claim as stated fails in that the state is not the same after the throw:
  \<open>quizHasChanged\<close> was false in the new quiz and is true after \<open>updateSection\<close>
  has refused three questions where two are allowed.
\<close>

theorem updateSection_bound_counterexample:
  "\<not> quizHasChanged newQuizState \<and>
   updateSection exampleEnv newQuizState 0
       (questionsUpdate [questionA, questionA2, questionB] None)
     = Inl (TypeError, newQuizState\<lparr>quizHasChanged := True\<rparr>) \<and>
   quizHasChanged (stateAfter (updateSection exampleEnv newQuizState 0
       (questionsUpdate [questionA, questionA2, questionB] None)))"
proof -
  have n: "\<not> quizHasChanged newQuizState"
    by (simp add: newQuizState_eq)
  have a: "at_index (allSections newQuizState) 0 = Some (defaultQuizSection ''s1'')"
    by (simp add: newQuizState_eq allSections_def at_index_def)
  have u: "updateSection exampleEnv newQuizState 0
       (questionsUpdate [questionA, questionA2, questionB] None)
     = Inl (TypeError, newQuizState\<lparr>quizHasChanged := True\<rparr>)"
    using a
    by (simp add: updateSection_def Let_def allSections_def questionsUpdate_def exampleEnv_def)
  from n u show ?thesis by simp
qed

subsection \<open>Automatic replacement\<close>

text \<open>
  C6 at a concrete input. The active section holds a question of exercise \<open>E1\<close>
  and then one of exercise \<open>E2\<close>; each exercise has one unused question. Replacing
  the two questions, listed in the order \<open>E2:b\<close>, \<open>E1:a\<close>, puts the unused
  question of \<open>E2\<close> where the question of \<open>E1\<close> was, and the other way round:
  \<open>_replaceQuestions\<close> consumes the replacements in the order of the section, while
  they were drawn in the order of the listed items.
\<close>

theorem autoReplaceQuestions_swaps_exercises:
  "map item (activeQuestions twoQuestionState) = [''E1:a'', ''E2:b''] \<and>
   map exercise_id (activeQuestions twoQuestionState) = [''E1'', ''E2''] \<and>
   (\<exists>s'. autoReplaceQuestions exampleEnv twoQuestionState [''E2:b'', ''E1:a''] = Inr s' \<and>
      map item (activeQuestions s') = [''E2:b2'', ''E1:a2''] \<and>
      map exercise_id (activeQuestions s') = [''E2'', ''E1''])"
proof -
  have a: "activeQuestions twoQuestionState = [questionA, questionB]"
    by (simp add: activeQuestions_def activeSection_def at_index_def allSections_def
        twoQuestionState_eq)
  have q: "allQuestionsInQuiz twoQuestionState = [questionA, questionB]"
    by (simp add: twoQuestionState_eq allQuestionsInQuiz_def allSections_def)
  have e: "exerciseMap twoQuestionState ''E1'' = Some exerciseA"
    "exerciseMap twoQuestionState ''E2'' = Some exerciseB"
    by (simp_all add: twoQuestionState_eq)
  have i: "activeSectionIndex twoQuestionState = 0"
    by (simp add: twoQuestionState_eq)
  have arm: "activeResourceMap twoQuestionState
               = [(''E1'', Some exerciseA), (''E2'', Some exerciseB)]"
    by (simp add: activeResourceMap_def a questionA_def questionB_def e)
  have ua: "unusedQuestions twoQuestionState exerciseA = [''E1:a2'']"
    by (simp add: unusedQuestions_def q compositeItem_def exerciseA_def questionA_def
        questionB_def)
  have ub: "unusedQuestions twoQuestionState exerciseB = [''E2:b2'']"
    by (simp add: unusedQuestions_def q compositeItem_def exerciseB_def questionA_def
        questionB_def)
  have ids: "ex_id exerciseA = ''E1''" "ex_id exerciseB = ''E2''"
    by (simp_all add: exerciseA_def exerciseB_def)
  have um: "activeExercisesUnusedQuestionsMap twoQuestionState
              = Inr [''E1'' \<mapsto> [''E1:a2''], ''E2'' \<mapsto> [''E2:b2'']]"
    by (simp add: activeExercisesUnusedQuestionsMap_def arm ua ub ids)
  have xa: "exerciseToQuestionArray exerciseA = [questionA, questionA2]"
    by (simp add: exerciseToQuestionArray_def exerciseA_def compositeItem_def questionA_def
        questionA2_def enumerate_eq_zip upt_rec)
  have xb: "exerciseToQuestionArray exerciseB = [questionB, questionB2]"
    by (simp add: exerciseToQuestionArray_def exerciseB_def compositeItem_def questionB_def
        questionB2_def enumerate_eq_zip upt_rec)
  have toReplace: "List.map_filter
          (\<lambda>questionItem. find (\<lambda>q. item q = questionItem) [questionA, questionB])
          [''E2:b'', ''E1:a''] = [questionB, questionA]"
    by (simp add: List.map_filter_def questionA_def questionB_def)
  have ex: "uniq (map exercise_id [questionB, questionA]) = [''E2'', ''E1'']"
    by (simp add: questionA_def questionB_def)
  have its: "map item [questionB, questionA] = [''E2:b'', ''E1:a'']"
    by (simp add: questionA_def questionB_def)
  have sh: "shuffleUnused exampleEnv twoQuestionState [''E2'', ''E1''] Map.empty
              = Inr [''E2'' \<mapsto> [Some questionB2], ''E1'' \<mapsto> [Some questionA2]]"
    by (simp add: um e xa xb exampleEnv_def questionA_def questionA2_def questionB_def
        questionB2_def)
  have pop: "popReplacements [''E2'' \<mapsto> [Some questionB2], ''E1'' \<mapsto> [Some questionA2]]
               [questionB, questionA] = Inr [questionB2, questionA2]"
    by (simp add: questionA_def questionB_def)
  have rep: "replaceQuestions [questionA, questionB] [''E2:b'', ''E1:a'']
               [questionB2, questionA2] = Inr [Some questionB2, Some questionA2]"
    by (simp add: replaceQuestions_def questionA_def questionB_def)
  have upd: "updateSectionReplaced exampleEnv twoQuestionState 0
               [Some questionB2, Some questionA2] None
             = Inr (twoQuestionState\<lparr>quiz := (quiz twoQuestionState)\<lparr>question_sources :=
                 [(defaultQuizSection ''s1'')\<lparr>questions := [questionB2, questionA2]\<rparr>]\<rparr>\<rparr>)"
    by (simp add: updateSectionReplaced_def twoQuestionState_eq updateSection_def Let_def
        at_index_def questionsUpdate_def exampleEnv_def spreadSection_def
        defaultQuizSection_def allSections_def)
  have r: "autoReplaceQuestions exampleEnv twoQuestionState [''E2:b'', ''E1:a'']
             = Inr (twoQuestionState\<lparr>quiz := (quiz twoQuestionState)\<lparr>question_sources :=
                 [(defaultQuizSection ''s1'')\<lparr>questions := [questionB2, questionA2]\<rparr>]\<rparr>\<rparr>)"
    by (simp only: autoReplaceQuestions_def Let_def a toReplace ex its sh pop rep upd i
        sum.case) simp
  have after: "activeQuestions (twoQuestionState\<lparr>quiz := (quiz twoQuestionState)\<lparr>question_sources :=
                 [(defaultQuizSection ''s1'')\<lparr>questions := [questionB2, questionA2]\<rparr>]\<rparr>\<rparr>)
                = [questionB2, questionA2]"
    by (simp add: activeQuestions_def activeSection_def at_index_def allSections_def i)
  from a r after show ?thesis
    by (simp add: questionA_def questionA2_def questionB_def questionB2_def)
qed

subsection \<open>Uniqueness of items\<close>

lemma foldl_append_concat: "foldl (\<lambda>acc x. acc @ f x) a xs = a @ concat (map f xs)"
  by (induction xs arbitrary: a) simp_all

lemma allQuestionsInQuiz_concat: "allQuestionsInQuiz s = concat (map questions (allSections s))"
  by (simp add: allQuestionsInQuiz_def foldl_append_concat)

lemma uniqueItems_sectionItems: "uniqueItems s = distinct (sectionItems (question_sources (quiz s)))"
  by (simp add: uniqueItems_def sectionItems_def allQuestionsInQuiz_concat allSections_def)

lemma sectionItems_append: "sectionItems (xs @ ys) = sectionItems xs @ sectionItems ys"
  by (simp add: sectionItems_def)

lemma sectionItems_single: "sectionItems [sec] = map item (questions sec)"
  by (simp add: sectionItems_def)

lemma sectionItems_default: "sectionItems [defaultQuizSection sid] = []"
  by (simp add: sectionItems_def defaultQuizSection_def)

lemma otherItems_sectionItems:
  "otherItems s i = sectionItems (take i (allSections s)) @ sectionItems (drop (i + 1) (allSections s))"
  by (simp add: otherItems_def sectionItems_def)

lemma sectionItems_split:
  assumes "i < length secs"
  shows "sectionItems secs
          = sectionItems (take i secs) @ map item (questions (secs ! i))
            @ sectionItems (drop (i + 1) secs)"
proof -
  have "sectionItems secs = sectionItems (take i secs @ [secs ! i] @ drop (i + 1) secs)"
    using assms by (simp add: id_take_nth_drop [symmetric])
  then show ?thesis
    by (simp only: sectionItems_append sectionItems_single)
qed

lemma unique_target:
  assumes "uniqueItems s" and "i < length (allSections s)"
  shows "distinct (map item (questions (allSections s ! i)))"
    and "distinct (otherItems s i)"
    and "\<forall>q\<in>set (questions (allSections s ! i)). item q \<notin> set (otherItems s i)"
proof -
  from assms(1) have "distinct (sectionItems (allSections s))"
    by (simp add: uniqueItems_sectionItems allSections_def)
  then have d: "distinct (sectionItems (take i (allSections s))
                  @ map item (questions (allSections s ! i))
                  @ sectionItems (drop (i + 1) (allSections s)))"
    by (simp only: sectionItems_split [OF assms(2), symmetric])
  from d show "distinct (map item (questions (allSections s ! i)))"
    by simp
  from d show "distinct (otherItems s i)"
    by (auto simp: otherItems_sectionItems)
  from d show "\<forall>q\<in>set (questions (allSections s ! i)). item q \<notin> set (otherItems s i)"
    by (auto simp: otherItems_sectionItems)
qed

lemma unique_updateSection_Inr:
  assumes u: "uniqueItems s"
    and r: "updateSection env s i u = Inr s'"
    and g: "case u_questions u of None \<Rightarrow> True | Some qs \<Rightarrow> newToQuiz s i qs"
  shows "uniqueItems s'"
proof -
  have i: "i < length (allSections s)"
    and a: "allSections s' = take i (allSections s) @ [spreadSection (allSections s ! i) u]
              @ drop (i + 1) (allSections s)"
    using updateSection_Inr [OF r] by (simp_all add: allSections_def)
  note t = unique_target [OF u i]
  define qs' where "qs' = questions (spreadSection (allSections s ! i) u)"
  have n: "distinct (map item qs') \<and> (\<forall>q\<in>set qs'. item q \<notin> set (otherItems s i))"
  proof (cases "u_questions u")
    case None
    with t show ?thesis by (simp add: qs'_def spreadSection_fields)
  next
    case (Some qs)
    with g show ?thesis by (simp add: qs'_def spreadSection_fields newToQuiz_def)
  qed
  have "sectionItems (allSections s')
          = sectionItems (take i (allSections s)) @ map item qs'
            @ sectionItems (drop (i + 1) (allSections s))"
    by (simp only: a sectionItems_append sectionItems_single qs'_def)
  moreover have "distinct (sectionItems (take i (allSections s)) @ map item qs'
            @ sectionItems (drop (i + 1) (allSections s)))"
    using n t(2) by (auto simp: otherItems_sectionItems)
  ultimately show ?thesis
    by (simp add: uniqueItems_sectionItems allSections_def)
qed

lemma unique_flag: "uniqueItems (s\<lparr>quizHasChanged := b\<rparr>) = uniqueItems s"
  by (simp add: uniqueItems_sectionItems)

lemma unique_selection: "uniqueItems (s\<lparr>selectedQuestionIds := xs\<rparr>) = uniqueItems s"
  by (simp add: uniqueItems_sectionItems)

lemma unique_updateSection:
  assumes "uniqueItems s"
    and "case u_questions u of None \<Rightarrow> True | Some qs \<Rightarrow> newToQuiz s i qs"
  shows "uniqueItems (stateAfter (updateSection env s i u))"
proof (cases "updateSection env s i u")
  case (Inl thrown)
  obtain e s' where t: "thrown = (e, s')" by (cases thrown)
  from Inl t have "updateSection env s i u = Inl (e, s')" by simp
  from updateSection_Inl [OF this] have "s' = s\<lparr>quizHasChanged := True\<rparr>" by simp
  with assms(1) Inl t show ?thesis by (simp add: unique_flag)
next
  case (Inr s')
  from unique_updateSection_Inr [OF assms(1) Inr assms(2)] Inr show ?thesis by simp
qed

lemma unique_updateSectionReplaced:
  assumes "uniqueItems s"
    and "\<And>qs'. those qs = Some qs' \<Longrightarrow> newToQuiz s i qs'"
  shows "uniqueItems (stateAfter (updateSectionReplaced env s i qs pool))"
proof (cases "those qs")
  case None
  with assms(1) show ?thesis by (simp add: updateSectionReplaced_def unique_flag)
next
  case (Some qs')
  from assms(2) [OF Some] have "case u_questions (questionsUpdate qs' pool) of
      None \<Rightarrow> True | Some qs \<Rightarrow> newToQuiz s i qs"
    by (simp add: questionsUpdate_def)
  from unique_updateSection [OF assms(1) this] Some show ?thesis
    by (simp add: updateSectionReplaced_def)
qed

lemma unique_updateQuiz:
  assumes "uniqueItems s"
    and "case u_question_sources u of None \<Rightarrow> True | Some secs \<Rightarrow> distinct (sectionItems secs)"
  shows "uniqueItems (stateAfter (updateQuiz env s u))"
  using assms
  by (auto simp: updateQuiz_def Let_def uniqueItems_sectionItems spreadQuiz_def
      split: option.splits)

lemma unique_addSection:
  "uniqueItems s \<Longrightarrow> uniqueItems (stateAfter (addSection env s sid))"
  unfolding addSection_def Let_def
  by (rule unique_updateQuiz)
     (simp_all add: noQuizUpdates_def sectionItems_append sectionItems_default
        uniqueItems_sectionItems)

lemma distinct_without:
  assumes "distinct (sectionItems secs)"
  shows "distinct (sectionItems (take i secs @ drop (i + 1) secs))"
proof (cases "i < length secs")
  case True
  from assms have "distinct (sectionItems (take i secs) @ map item (questions (secs ! i))
                     @ sectionItems (drop (i + 1) secs))"
    by (simp only: sectionItems_split [OF True, symmetric])
  then show ?thesis
    by (auto simp: sectionItems_append)
next
  case False
  with assms show ?thesis by simp
qed

lemma unique_removeSection:
  assumes "uniqueItems s"
  shows "uniqueItems (stateAfter (removeSection env s i sid))"
proof (cases "at_index (allSections s) i")
  case None
  with assms show ?thesis by (simp add: removeSection_def)
next
  case (Some sec)
  define u where "u = noQuizUpdates\<lparr>u_question_sources :=
                        Some (take i (allSections s) @ drop (i + 1) (allSections s))\<rparr>"
  from assms have "distinct (sectionItems (allSections s))"
    by (simp add: uniqueItems_sectionItems allSections_def)
  from distinct_without [OF this, of i]
  have b1: "uniqueItems (stateAfter (updateQuiz env s u))"
    using assms by (intro unique_updateQuiz) (simp_all add: u_def)
  show ?thesis
  proof (cases "updateQuiz env s u")
    case (Inl thrown)
    with b1 Some show ?thesis
      by (cases thrown) (simp add: removeSection_def u_def)
  next
    case (Inr s1)
    with b1 have "uniqueItems s1" by simp
    from unique_addSection [OF this, of env sid] this Some Inr show ?thesis
      by (simp add: removeSection_def u_def)
  qed
qed

lemma unique_initializeQuiz:
  assumes "bringsNoDuplicate env s (InitializeQuiz c fetched sid)"
  shows "uniqueItems (stateAfter (initializeQuiz env s c fetched sid))"
proof (cases fetched)
  case None
  define s1 where "s1 = s\<lparr>quiz := defaultQuiz c [c]\<rparr>"
  have "uniqueItems s1"
    by (simp add: s1_def uniqueItems_sectionItems defaultQuiz_def sectionItems_def)
  from unique_addSection [OF this, of env sid] None show ?thesis
    by (cases "addSection env s1 sid")
       (auto simp: initializeQuiz_def s1_def uniqueItems_sectionItems)
next
  case (Some f)
  obtain q exercises where f: "f = (q, exercises)" by (cases f)
  define s1 where "s1 = s\<lparr>exerciseMap := cacheExercises exercises (exerciseMap s), quiz := q\<rparr>"
  from assms Some f have b: "uniqueItems s1"
    by (simp add: s1_def uniqueItems_sectionItems)
  from unique_addSection [OF b, of env sid] b Some f show ?thesis
    by (cases "addSection env s1 sid")
       (auto simp: initializeQuiz_def s1_def Let_def uniqueItems_sectionItems)
qed

lemma unique_saveQuizThen:
  assumes "uniqueItems s"
  shows "uniqueItems (stateAfter (saveQuizThen env s id0 examId))"
proof -
  define u where "u = noQuizUpdates\<lparr>u_quiz_id := Some (Some examId)\<rparr>"
  have "uniqueItems (stateAfter (updateQuiz env s u))"
    using assms by (intro unique_updateQuiz) (simp_all add: u_def noQuizUpdates_def)
  with assms show ?thesis
    by (cases "updateQuiz env s u")
       (auto simp: saveQuizThen_def u_def uniqueItems_sectionItems)
qed

lemma unique_deleteActiveSelectedQuestions:
  assumes "uniqueItems s"
  shows "uniqueItems (stateAfter (deleteActiveSelectedQuestions env s))"
proof (cases "activeSection s")
  case None
  with assms show ?thesis by (simp add: deleteActiveSelectedQuestions_def)
next
  case (Some sec)
  then have i: "activeSectionIndex s < length (allSections s)"
    and sec: "sec = allSections s ! activeSectionIndex s"
    by (auto simp: activeSection_def at_index_def split: if_splits)
  define qs where "qs = filter (\<lambda>q. item q \<notin> set (selectedQuestionIds s)) (questions sec)"
  note t = unique_target [OF assms i]
  from t(1) have "distinct (map item qs)"
    by (simp add: qs_def sec distinct_map_filter)
  moreover from t(3) have "\<forall>q\<in>set qs. item q \<notin> set (otherItems s (activeSectionIndex s))"
    by (simp add: qs_def sec)
  ultimately have "case u_questions (questionsUpdate qs None) of
      None \<Rightarrow> True | Some qs \<Rightarrow> newToQuiz s (activeSectionIndex s) qs"
    by (simp add: questionsUpdate_def newToQuiz_def)
  from unique_updateSection [OF assms this, of env] Some show ?thesis
    by (cases "updateSection env s (activeSectionIndex s) (questionsUpdate qs None)")
       (auto simp: deleteActiveSelectedQuestions_def Let_def qs_def uniqueItems_sectionItems)
qed

lemma items_subset_all:
  assumes "i < length (allSections s)"
  shows "set (otherItems s i) \<subseteq> item ` set (allQuestionsInQuiz s)"
    and "item ` set (questions (allSections s ! i)) \<subseteq> item ` set (allQuestionsInQuiz s)"
proof -
  have "map item (allQuestionsInQuiz s) = sectionItems (allSections s)"
    by (simp add: sectionItems_def allQuestionsInQuiz_concat)
  also have "\<dots> = sectionItems (take i (allSections s))
                 @ map item (questions (allSections s ! i))
                 @ sectionItems (drop (i + 1) (allSections s))"
    by (rule sectionItems_split [OF assms])
  finally have e: "map item (allQuestionsInQuiz s)
                     = sectionItems (take i (allSections s))
                       @ map item (questions (allSections s ! i))
                       @ sectionItems (drop (i + 1) (allSections s))" .
  have "set (map item (allQuestionsInQuiz s))
          = set (otherItems s i) \<union> set (map item (questions (allSections s ! i)))"
    by (simp only: e otherItems_sectionItems set_append) auto
  then show "set (otherItems s i) \<subseteq> item ` set (allQuestionsInQuiz s)"
    and "item ` set (questions (allSections s ! i)) \<subseteq> item ` set (allQuestionsInQuiz s)"
    by auto
qed

lemma replaceMap_distinct:
  assumes "distinct (map item base)" and "distinct (map item reps)"
    and "\<forall>r\<in>set reps. item r \<notin> item ` set base"
    and "those (replaceMap base its reps) = Some res"
  shows "distinct (map item res) \<and> set res \<subseteq> set base \<union> set reps"
  using assms
proof (induction base arbitrary: reps res)
  case Nil
  then show ?case by simp
next
  case (Cons q qs)
  show ?case
  proof (cases "item q \<in> set its")
    case True
    show ?thesis
    proof (cases reps)
      case Nil
      with True Cons.prems(4) show ?thesis by simp
    next
      case (Cons r rs)
      with True Cons.prems(4) obtain res' where
        res: "res = r # res'" and th: "those (replaceMap qs its rs) = Some res'"
        by (auto split: option.splits)
      from Cons.prems Cons have "distinct (map item qs)" "distinct (map item rs)"
        "\<forall>r\<in>set rs. item r \<notin> item ` set qs"
        by auto
      from Cons.IH [OF this th] have ih: "distinct (map item res')" "set res' \<subseteq> set qs \<union> set rs"
        by simp_all
      from Cons.prems Cons have "item r \<notin> item ` set qs" "item r \<notin> item ` set rs"
        by auto
      with ih have "item r \<notin> item ` set res'" by auto
      with ih res Cons show ?thesis by auto
    qed
  next
    case False
    with Cons.prems(4) obtain res' where
      res: "res = q # res'" and th: "those (replaceMap qs its reps) = Some res'"
      by (auto split: option.splits)
    from Cons.prems have "distinct (map item qs)" "distinct (map item reps)"
      "\<forall>r\<in>set reps. item r \<notin> item ` set qs"
      by auto
    from Cons.IH [OF this th] have ih: "distinct (map item res')" "set res' \<subseteq> set qs \<union> set reps"
      by simp_all
    from Cons.prems have "item q \<notin> item ` set qs" "item q \<notin> item ` set reps"
      by auto
    with ih have "item q \<notin> item ` set res'" by auto
    with ih res show ?thesis by auto
  qed
qed

lemma unique_addQuestionsToSection:
  assumes u: "uniqueItems s"
    and g: "case qs of None \<Rightarrow> True | Some qs' \<Rightarrow> newToQuiz s i qs'"
  shows "uniqueItems (stateAfter (addQuestionsToSection env s i qs resources its))"
proof (cases "at_index (allSections s) i")
  case None
  with u show ?thesis by (simp add: addQuestionsToSection_def)
next
  case (Some target)
  then have i: "i < length (allSections s)" and target: "target = allSections s ! i"
    by (auto simp: at_index_def split: if_splits)
  note t = unique_target [OF u i]
  show ?thesis
  proof (cases qs)
    case None
    with u Some show ?thesis by (simp add: addQuestionsToSection_def)
  next
    case qs: (Some qs')
    define new where
      "new = filter (\<lambda>q. item q \<notin> set (map item (questions target))) qs'"
    from g qs have n: "distinct (map item qs')" "\<forall>q\<in>set qs'. item q \<notin> set (otherItems s i)"
      by (simp_all add: newToQuiz_def)
    have new1: "distinct (map item new)"
      using n(1) by (simp add: new_def distinct_map_filter)
    have new2: "\<forall>q\<in>set new. item q \<notin> set (otherItems s i)"
      using n(2) by (simp add: new_def)
    have new3: "\<forall>q\<in>set new. item q \<notin> item ` set (questions target)"
      by (simp add: new_def)
    then have new4: "\<forall>x\<in>set (questions target). \<forall>q\<in>set new. item x \<noteq> item q"
      by (metis imageI)
    have app: "newToQuiz s i (questions target @ new)"
      using t new1 new2 new4 by (auto simp: newToQuiz_def target)
    have appended: "uniqueItems (stateAfter (updateSection env s i
                      (questionsUpdate (questions target @ new) resources)))"
      by (rule unique_updateSection [OF u]) (simp add: questionsUpdate_def app)
    have replaced: "uniqueItems (stateAfter (updateSectionReplaced env s i
                      (replaceMap (questions target) xs new) resources))" for xs
    proof (rule unique_updateSectionReplaced [OF u])
      fix res
      assume "those (replaceMap (questions target) xs new) = Some res"
      from replaceMap_distinct [OF _ new1 new3 this] t(1)
      have "distinct (map item res)" "set res \<subseteq> set (questions target) \<union> set new"
        by (simp_all add: target)
      with t(3) new2 show "newToQuiz s i res"
        by (auto simp: newToQuiz_def target)
    qed
    show ?thesis
    proof (cases "qs' = []")
      case True
      with u Some qs show ?thesis by (simp add: addQuestionsToSection_def)
    next
      case False
      show ?thesis
      proof (cases its)
        case None
        with Some qs False appended show ?thesis
          by (simp add: addQuestionsToSection_def Let_def new_def)
      next
        case (Some xs)
        show ?thesis
        proof (cases "length xs = 0")
          case True
          with \<open>at_index (allSections s) i = Some target\<close> qs False Some appended
          show ?thesis
            by (simp add: addQuestionsToSection_def Let_def new_def)
        next
          case nonempty: False
          show ?thesis
          proof (cases "length xs = length new")
            case True
            with \<open>at_index (allSections s) i = Some target\<close> qs False Some nonempty
              replaced [of xs]
            show ?thesis
              by (simp add: addQuestionsToSection_def Let_def new_def replaceQuestions_def)
          next
            case False
            with \<open>at_index (allSections s) i = Some target\<close> qs \<open>qs' \<noteq> []\<close> Some nonempty u
            show ?thesis
              by (simp add: addQuestionsToSection_def Let_def new_def replaceQuestions_def)
          qed
        qed
      qed
    qed
  qed
qed

lemma unique_addQuestionsToSectionFromResources:
  assumes u: "uniqueItems s"
    and g: "bringsNoDuplicate env s (AddQuestionsToSectionFromResources i pool n seed)"
  shows "uniqueItems (stateAfter (addQuestionsToSectionFromResources env s i pool n seed))"
proof (cases "\<exists>e. addQuestionsToSectionFromResources env s i pool n seed = Inl (e, s)")
  case True
  with u show ?thesis by auto
next
  case False
  then obtain target p k where
    target: "at_index (allSections s) i = Some target" and p: "pool = Some p" and k: "n = Some k"
    by (auto simp: addQuestionsToSectionFromResources_def split: option.splits)
  from target have i: "i < length (allSections s)" and t': "target = allSections s ! i"
    by (auto simp: at_index_def split: if_splits)
  define available where "available = questionPool p (map item (allQuestionsInQuiz s))"
  define new where "new = take (nat k) (seededShuffle env seed available)"
  from False target p k
  have eq: "addQuestionsToSectionFromResources env s i pool n seed
              = updateSection env s i (questionsUpdate (questions target @ new) (Some p))"
    by (auto simp: addQuestionsToSectionFromResources_def selectQuestions_def Let_def
        available_def new_def split: if_splits)
  from g p have d: "distinct (map item (seededShuffle env seed available))"
    and sub: "\<forall>q\<in>set (seededShuffle env seed available). q \<in> set available"
    by (simp_all add: Let_def available_def)
  from d have new1: "distinct (map item new)"
    by (simp add: new_def take_map [symmetric] distinct_take)
  have fresh: "item q \<notin> item ` set (allQuestionsInQuiz s)" if "q \<in> set new" for q
  proof -
    from that have "q \<in> set (seededShuffle env seed available)"
      by (auto simp: new_def dest: in_set_takeD)
    with sub have "q \<in> set available" by simp
    then show ?thesis
      by (auto simp: available_def questionPool_def)
  qed
  note t = unique_target [OF u i]
  from fresh items_subset_all(1) [OF i]
  have new2: "\<forall>q\<in>set new. item q \<notin> set (otherItems s i)"
    by blast
  from fresh items_subset_all(2) [OF i]
  have "\<forall>q\<in>set new. item q \<notin> item ` set (questions target)"
    unfolding t' by blast
  then have new4: "\<forall>x\<in>set (questions target). \<forall>q\<in>set new. item x \<noteq> item q"
    by (metis imageI)
  have "newToQuiz s i (questions target @ new)"
    using t new1 new2 new4 by (auto simp: newToQuiz_def t')
  then have "uniqueItems (stateAfter (updateSection env s i
               (questionsUpdate (questions target @ new) (Some p))))"
    by (intro unique_updateSection [OF u]) (simp add: questionsUpdate_def)
  with eq show ?thesis by simp
qed

subsection \<open>Automatic replacement brings unused questions\<close>

lemma unusedMap_values:
  "\<forall>k v. m0 k = Some v \<longrightarrow> (\<exists>e. v = unusedQuestions s e) \<Longrightarrow>
   foldl (\<lambda>m exercise. m(ex_id exercise \<mapsto> unusedQuestions s exercise)) m0 exercises k = Some v \<Longrightarrow>
   \<exists>e. v = unusedQuestions s e"
proof (induction exercises arbitrary: m0)
  case Nil
  then show ?case by simp
next
  case (Cons x xs)
  have "\<forall>k v. (m0(ex_id x \<mapsto> unusedQuestions s x)) k = Some v \<longrightarrow> (\<exists>e. v = unusedQuestions s e)"
    using Cons.prems(1) by auto
  from Cons.IH [OF this] Cons.prems(2) show ?case by simp
qed

lemma unusedMap_fresh:
  assumes "activeExercisesUnusedQuestionsMap s = Inr um" and "um k = Some unused"
  shows "\<forall>it\<in>set unused. it \<notin> item ` set (allQuestionsInQuiz s)"
proof -
  from assms(1) obtain exercises where
    "um = foldl (\<lambda>m exercise. m(ex_id exercise \<mapsto> unusedQuestions s exercise))
            Map.empty exercises"
    by (auto simp: activeExercisesUnusedQuestionsMap_def split: option.splits)
  with assms(2) unusedMap_values [of Map.empty s exercises k unused]
  obtain e where "unused = unusedQuestions s e"
    by auto
  then show ?thesis
    by (simp add: unusedQuestions_eq)
qed

lemma shuffleUnused_result:
  assumes "shuffleUnused env s exs m0 = Inr sm"
  shows "(\<forall>k. k \<notin> set exs \<longrightarrow> sm k = m0 k) \<and>
         (\<forall>k\<in>set exs. \<exists>um unused arr.
             activeExercisesUnusedQuestionsMap s = Inr um \<and> um k = Some unused \<and>
             sm k = Some (map (\<lambda>it. find (\<lambda>q. item q = it) arr) (shuffled env unused)))"
  using assms
proof (induction exs arbitrary: m0)
  case Nil
  then show ?case by simp
next
  case (Cons x xs)
  from Cons.prems obtain um unused exercise where
    um: "activeExercisesUnusedQuestionsMap s = Inr um" and
    un: "um x = Some unused" and
    rest: "shuffleUnused env s xs
             (m0(x \<mapsto> map (\<lambda>it. find (\<lambda>q. item q = it) (exerciseToQuestionArray exercise))
                         (shuffled env unused))) = Inr sm"
    by (auto simp: Let_def split: sum.splits option.splits if_splits)
  define m1 where
    "m1 = m0(x \<mapsto> map (\<lambda>it. find (\<lambda>q. item q = it) (exerciseToQuestionArray exercise))
                     (shuffled env unused))"
  from rest have r: "shuffleUnused env s xs m1 = Inr sm"
    by (simp add: m1_def)
  note ih = Cons.IH [OF r]
  have a: "\<forall>k. k \<notin> set (x # xs) \<longrightarrow> sm k = m0 k"
    using ih by (auto simp: m1_def)
  have b: "\<exists>um unused arr.
             activeExercisesUnusedQuestionsMap s = Inr um \<and> um k = Some unused \<and>
             sm k = Some (map (\<lambda>it. find (\<lambda>q. item q = it) arr) (shuffled env unused))"
    if "k \<in> set (x # xs)" for k
  proof (cases "k \<in> set xs")
    case True
    with ih show ?thesis by blast
  next
    case False
    with that have kx: "k = x" by simp
    from ih False have "sm k = m1 k" by blast
    with kx have "sm k = Some (map (\<lambda>it. find (\<lambda>q. item q = it) (exerciseToQuestionArray exercise))
                         (shuffled env unused))"
      by (simp add: m1_def)
    with um un kx show ?thesis by blast
  qed
  from a b show ?case by blast
qed

text \<open>The items of the questions that a list of optional questions holds.\<close>

lemma found_items:
  "map item (List.map_filter (\<lambda>x. x) (map (\<lambda>it. find (\<lambda>q. item q = it) arr) xs))
     = filter (\<lambda>it. find (\<lambda>q. item q = it) arr \<noteq> None) xs"
proof (induction xs)
  case Nil
  then show ?case by (simp add: List.map_filter_simps)
next
  case (Cons x xs)
  show ?case
  proof (cases "find (\<lambda>q. item q = x) arr")
    case None
    with Cons show ?thesis by (simp add: List.map_filter_simps)
  next
    case (Some q)
    then have "item q = x" by (auto simp: find_Some_iff)
    with Some Cons show ?thesis by (simp add: List.map_filter_simps)
  qed
qed

lemma map_filter_snoc:
  "List.map_filter (\<lambda>x. x) (xs @ [Some y]) = List.map_filter (\<lambda>x. x) xs @ [y]"
  by (simp add: List.map_filter_def)

lemma map_filter_mem: "y \<in> set (List.map_filter (\<lambda>x. x) xs) \<longleftrightarrow> Some y \<in> set xs"
proof (induction xs)
  case Nil
  then show ?case by (simp add: List.map_filter_simps)
next
  case (Cons x xs)
  then show ?case by (cases x) (auto simp: List.map_filter_simps)
qed

lemma popReplacements_distinct:
  assumes "\<forall>k l. m k = Some l \<longrightarrow> distinct (map item (List.map_filter (\<lambda>x. x) l))"
    and "\<forall>k k' l l' a b. k \<noteq> k' \<longrightarrow> m k = Some l \<longrightarrow> m k' = Some l' \<longrightarrow>
           Some a \<in> set l \<longrightarrow> Some b \<in> set l' \<longrightarrow> item a \<noteq> item b"
    and "popReplacements m qs = Inr new"
  shows "distinct (map item new) \<and> (\<forall>n\<in>set new. \<exists>k l. m k = Some l \<and> Some n \<in> set l)"
  using assms
proof (induction qs arbitrary: m new)
  case Nil
  then show ?case by simp
next
  case (Cons q qs)
  define k0 where "k0 = exercise_id q"
  from Cons.prems(3) obtain l nq others where
    l: "m k0 = Some l" and ne: "l \<noteq> []" and nq: "last l = Some nq" and
    rest: "popReplacements (m(k0 \<mapsto> butlast l)) qs = Inr others" and
    new: "new = nq # others"
    by (auto simp: k0_def split: option.splits if_splits sum.splits)
  from ne nq have snoc: "l = butlast l @ [Some nq]"
    by (metis append_butlast_last_id)
  then have somes: "List.map_filter (\<lambda>x. x) l = List.map_filter (\<lambda>x. x) (butlast l) @ [nq]"
    by (metis map_filter_snoc)
  from Cons.prems(1) l have dl: "distinct (map item (List.map_filter (\<lambda>x. x) l))"
    by blast
  with somes have d1: "distinct (map item (List.map_filter (\<lambda>x. x) (butlast l)))"
    and d0: "item nq \<notin> item ` set (List.map_filter (\<lambda>x. x) (butlast l))"
    by simp_all
  have d2: "\<forall>a. Some a \<in> set (butlast l) \<longrightarrow> item a \<noteq> item nq"
  proof (intro allI impI)
    fix a
    assume "Some a \<in> set (butlast l)"
    then have "a \<in> set (List.map_filter (\<lambda>x. x) (butlast l))"
      by (simp only: map_filter_mem)
    with d0 show "item a \<noteq> item nq"
      by (metis imageI)
  qed
  have sub: "Some a \<in> set (butlast l) \<Longrightarrow> Some a \<in> set l" for a
    by (auto dest: in_set_butlastD)
  define m1 where "m1 = m(k0 \<mapsto> butlast l)"
  have p1: "\<forall>k l. m1 k = Some l \<longrightarrow> distinct (map item (List.map_filter (\<lambda>x. x) l))"
    using Cons.prems(1) d1 by (auto simp: m1_def)
  have p2: "\<forall>k k' l l' a b. k \<noteq> k' \<longrightarrow> m1 k = Some l \<longrightarrow> m1 k' = Some l' \<longrightarrow>
           Some a \<in> set l \<longrightarrow> Some b \<in> set l' \<longrightarrow> item a \<noteq> item b"
  proof (intro allI impI)
    fix k k' la lb a b
    assume kk: "k \<noteq> k'" and a: "m1 k = Some la" and b: "m1 k' = Some lb"
      and ia: "Some a \<in> set la" and ib: "Some b \<in> set lb"
    have "\<exists>la'. m k = Some la' \<and> Some a \<in> set la'"
      using a ia l sub by (cases "k = k0") (auto simp: m1_def)
    moreover have "\<exists>lb'. m k' = Some lb' \<and> Some b \<in> set lb'"
      using b ib l sub by (cases "k' = k0") (auto simp: m1_def)
    ultimately show "item a \<noteq> item b"
      using Cons.prems(2) kk by blast
  qed
  from rest have r: "popReplacements m1 qs = Inr others"
    by (simp add: m1_def)
  from Cons.IH [OF p1 p2 r]
  have ih1: "distinct (map item others)"
    and ih2: "\<forall>n\<in>set others. \<exists>k l. m1 k = Some l \<and> Some n \<in> set l"
    by simp_all
  have nql: "Some nq \<in> set l"
    using snoc by (metis in_set_conv_decomp)
  have fresh: "item n \<noteq> item nq" if "n \<in> set others" for n
  proof -
    from ih2 that obtain k l' where kl: "m1 k = Some l'" "Some n \<in> set l'"
      by blast
    show ?thesis
    proof (cases "k = k0")
      case True
      with kl have "Some n \<in> set (butlast l)" by (simp add: m1_def)
      with d2 show ?thesis by blast
    next
      case False
      with kl have "m k = Some l'" by (simp add: m1_def)
      with Cons.prems(2) False l kl(2) nql show ?thesis by blast
    qed
  qed
  have origin: "\<exists>k l. m k = Some l \<and> Some n \<in> set l" if "n \<in> set others" for n
  proof -
    from ih2 that obtain k l' where kl: "m1 k = Some l'" "Some n \<in> set l'"
      by blast
    then show ?thesis
      using l sub by (cases "k = k0") (auto simp: m1_def)
  qed
  have "item nq \<notin> item ` set others"
    using fresh by (metis imageE)
  with ih1 have "distinct (map item (nq # others))"
    by simp
  moreover from origin l nql have "\<forall>n\<in>set (nq # others). \<exists>k l. m k = Some l \<and> Some n \<in> set l"
    by auto
  ultimately show ?case
    by (simp only: new)
qed

lemma set_map_filter_find:
  "set (List.map_filter (\<lambda>it. find (\<lambda>q. item q = it) qs) its) \<subseteq> set qs"
proof (induction its)
  case Nil
  then show ?case by (simp add: List.map_filter_simps)
next
  case (Cons x xs)
  show ?case
  proof (cases "find (\<lambda>q. item q = x) qs")
    case None
    with Cons show ?thesis by (simp add: List.map_filter_simps)
  next
    case (Some q)
    then have "q \<in> set qs"
      by (auto simp: find_Some_iff)
    with Some Cons show ?thesis by (simp add: List.map_filter_simps)
  qed
qed

lemma unique_autoReplaceQuestions:
  assumes u: "uniqueItems s"
    and g: "bringsNoDuplicate env s (AutoReplaceQuestions its)"
  shows "uniqueItems (stateAfter (autoReplaceQuestions env s its))"
proof (cases "autoReplaceQuestions env s its = Inr s \<or>
              (\<exists>e. autoReplaceQuestions env s its = Inl (e, s))")
  case True
  with u show ?thesis by auto
next
  case False
  define toRep where
    "toRep = List.map_filter (\<lambda>questionItem. find (\<lambda>q. item q = questionItem) (activeQuestions s)) its"
  define exs where "exs = uniq (map exercise_id toRep)"
  from False obtain sm new where
    sm: "shuffleUnused env s exs Map.empty = Inr sm" and
    new: "popReplacements sm toRep = Inr new" and
    eq: "autoReplaceQuestions env s its
           = updateSectionReplaced env s (activeSectionIndex s)
               (replaceMap (activeQuestions s) (map item toRep) new) None"
    by (auto simp: autoReplaceQuestions_def Let_def toRep_def exs_def replaceQuestions_def
        split: if_splits sum.splits)
  note res = shuffleUnused_result [OF sm]
  have outside: "sm k = None" if "k \<notin> set exs" for k
    using res that by simp
  have exs_active: "set exs \<subseteq> set (uniq (map exercise_id (activeQuestions s)))"
    using set_map_filter_find [of "activeQuestions s" its]
    by (auto simp: exs_def toRep_def set_uniq)
  have inside: "\<exists>um unused arr.
      activeExercisesUnusedQuestionsMap s = Inr um \<and> um k = Some unused \<and>
      sm k = Some (map (\<lambda>it. find (\<lambda>q. item q = it) arr) (shuffled env unused)) \<and>
      distinct (shuffled env unused) \<and> set (shuffled env unused) \<subseteq> set unused"
    if "k \<in> set exs" for k
  proof -
    from res that obtain um unused arr where
      a: "activeExercisesUnusedQuestionsMap s = Inr um" "um k = Some unused"
      "sm k = Some (map (\<lambda>it. find (\<lambda>q. item q = it) arr) (shuffled env unused))"
      by blast
    from that exs_active have "k \<in> set (uniq (map exercise_id (activeQuestions s)))"
      by blast
    moreover from g a(1)
    have "\<forall>k\<in>set (uniq (map exercise_id (activeQuestions s))).
            case um k of
              None \<Rightarrow> True
            | Some unused \<Rightarrow>
                distinct (shuffled env unused) \<and> (\<forall>it\<in>set (shuffled env unused). it \<in> set unused)"
      by (simp add: Let_def)
    ultimately have "case um k of
              None \<Rightarrow> True
            | Some unused \<Rightarrow>
                distinct (shuffled env unused) \<and> (\<forall>it\<in>set (shuffled env unused). it \<in> set unused)"
      by blast
    with a(2) have "distinct (shuffled env unused)"
      "\<forall>it\<in>set (shuffled env unused). it \<in> set unused"
      by simp_all
    with a show ?thesis by blast
  qed
  have items_of: "item a \<in> set unused"
    if "sm k = Some l" "Some a \<in> set l" "activeExercisesUnusedQuestionsMap s = Inr um"
      "um k = Some unused" for k l a um unused
  proof -
    from that(1) outside have "k \<in> set exs" by force
    from inside [OF this] that obtain arr where
      l: "l = map (\<lambda>it. find (\<lambda>q. item q = it) arr) (shuffled env unused)" and
      sub: "set (shuffled env unused) \<subseteq> set unused"
      by auto
    from that(2) l obtain it where "it \<in> set (shuffled env unused)"
      "find (\<lambda>q. item q = it) arr = Some a"
      by auto
    then have "item a = it" "it \<in> set (shuffled env unused)"
      by (auto simp: find_Some_iff)
    with sub show ?thesis by blast
  qed
  have p1: "\<forall>k l. sm k = Some l \<longrightarrow> distinct (map item (List.map_filter (\<lambda>x. x) l))"
  proof (intro allI impI)
    fix k l
    assume kl: "sm k = Some l"
    with outside have "k \<in> set exs" by force
    from inside [OF this] kl obtain unused arr where
      "l = map (\<lambda>it. find (\<lambda>q. item q = it) arr) (shuffled env unused)"
      "distinct (shuffled env unused)"
      by auto
    then show "distinct (map item (List.map_filter (\<lambda>x. x) l))"
      by (simp add: found_items)
  qed
  have p2: "\<forall>k k' l l' a b. k \<noteq> k' \<longrightarrow> sm k = Some l \<longrightarrow> sm k' = Some l' \<longrightarrow>
           Some a \<in> set l \<longrightarrow> Some b \<in> set l' \<longrightarrow> item a \<noteq> item b"
  proof (intro allI impI)
    fix k k' l l' a b
    assume kk: "k \<noteq> k'" and kl: "sm k = Some l" and kl': "sm k' = Some l'"
      and a: "Some a \<in> set l" and b: "Some b \<in> set l'"
    from kl kl' outside have k: "k \<in> set exs" and k': "k' \<in> set exs" by force+
    from inside [OF k] obtain um unused where
      um: "activeExercisesUnusedQuestionsMap s = Inr um" and un: "um k = Some unused"
      by blast
    from inside [OF k'] um obtain unused' where un': "um k' = Some unused'"
      by auto
    from items_of [OF kl a um un] have ia: "item a \<in> set unused" .
    from items_of [OF kl' b um un'] have ib: "item b \<in> set unused'" .
    from k k' exs_active have "k \<in> set (uniq (map exercise_id (activeQuestions s)))"
      "k' \<in> set (uniq (map exercise_id (activeQuestions s)))"
      by blast+
    moreover from g um
    have "\<forall>k\<in>set (uniq (map exercise_id (activeQuestions s))).
            \<forall>k'\<in>set (uniq (map exercise_id (activeQuestions s))).
              k \<noteq> k' \<longrightarrow>
              (case um k of
                 None \<Rightarrow> True
               | Some a \<Rightarrow> (case um k' of None \<Rightarrow> True | Some b \<Rightarrow> \<forall>it\<in>set a. it \<notin> set b))"
      by (simp add: Let_def)
    ultimately have "case um k of
                 None \<Rightarrow> True
               | Some a \<Rightarrow> (case um k' of None \<Rightarrow> True | Some b \<Rightarrow> \<forall>it\<in>set a. it \<notin> set b)"
      using kk by blast
    with un un' have "\<forall>it\<in>set unused. it \<notin> set unused'"
      by simp
    with ia ib show "item a \<noteq> item b"
      by metis
  qed
  from popReplacements_distinct [OF p1 p2 new]
  have new1: "distinct (map item new)"
    and origin: "\<forall>n\<in>set new. \<exists>k l. sm k = Some l \<and> Some n \<in> set l"
    by simp_all
  have fresh: "item n \<notin> item ` set (allQuestionsInQuiz s)" if "n \<in> set new" for n
  proof -
    from origin that obtain k l where kl: "sm k = Some l" "Some n \<in> set l"
      by blast
    with outside have "k \<in> set exs" by force
    from inside [OF this] obtain um unused where
      um: "activeExercisesUnusedQuestionsMap s = Inr um" and un: "um k = Some unused"
      by blast
    from items_of [OF kl um un] have "item n \<in> set unused" .
    with unusedMap_fresh [OF um un] show ?thesis by blast
  qed
  have "newToQuiz s (activeSectionIndex s) qs'"
    if th: "those (replaceMap (activeQuestions s) (map item toRep) new) = Some qs'" for qs'
  proof (cases "activeSection s")
    case None
    then have "activeQuestions s = []" by (simp add: activeQuestions_def)
    with th show ?thesis by (simp add: newToQuiz_def)
  next
    case (Some sec)
    then have i: "activeSectionIndex s < length (allSections s)"
      and sec: "sec = allSections s ! activeSectionIndex s"
      by (auto simp: activeSection_def at_index_def split: if_splits)
    from Some have act: "activeQuestions s = questions (allSections s ! activeSectionIndex s)"
      by (simp add: activeQuestions_def sec)
    note t = unique_target [OF u i]
    from fresh items_subset_all(2) [OF i]
    have new3: "\<forall>r\<in>set new. item r \<notin> item ` set (activeQuestions s)"
      unfolding act by blast
    from fresh items_subset_all(1) [OF i]
    have new2: "\<forall>q\<in>set new. item q \<notin> set (otherItems s (activeSectionIndex s))"
      by blast
    from t(1) have "distinct (map item (activeQuestions s))"
      by (simp only: act)
    from replaceMap_distinct [OF this new1 new3 th]
    have "distinct (map item qs')" "set qs' \<subseteq> set (activeQuestions s) \<union> set new"
      by simp_all
    with t(3) new2 show ?thesis
      unfolding newToQuiz_def act by blast
  qed
  from unique_updateSectionReplaced [OF u this] eq show ?thesis
    by simp
qed

lemma unique_initialState: "uniqueItems initialState"
  by (simp add: uniqueItems_sectionItems initialState_def defaultQuiz_def sectionItems_def)

text \<open>
  C1, as the code has it. The initial state has no two questions with the same
  item, and an operation that brings no duplicate keeps it so, whether it returns
  or throws: \<open>addQuestionsToSection\<close> leaves out the given questions whose item is
  in the target section, \<open>addQuestionsToSectionFromResources\<close> selects among the
  questions whose item is not in the quiz, and \<open>deleteActiveSelectedQuestions\<close>,
  \<open>addSection\<close> and \<open>removeSection\<close> add no question.
\<close>

theorem uniqueItems_preserved:
  "uniqueItems initialState \<and>
   (uniqueItems s \<and> bringsNoDuplicate env s x \<longrightarrow> uniqueItems (stateAfter (step env s x)))"
proof (intro conjI impI)
  show "uniqueItems initialState" by (rule unique_initialState)
next
  assume "uniqueItems s \<and> bringsNoDuplicate env s x"
  then have u: "uniqueItems s" and g: "bringsNoDuplicate env s x" by simp_all
  show "uniqueItems (stateAfter (step env s x))"
  proof (cases x)
    case (UpdateSection i u')
    with u g show ?thesis by (simp add: unique_updateSection)
  next
    case (AddQuestionsToSectionFromResources i pool n seed)
    with u g show ?thesis by (simp add: unique_addQuestionsToSectionFromResources)
  next
    case (AddQuestionsToSection i qs resources its)
    with u g show ?thesis by (simp add: unique_addQuestionsToSection)
  next
    case (AddSection sid)
    with u show ?thesis by (simp add: unique_addSection)
  next
    case (RemoveSection i sid)
    with u show ?thesis by (simp add: unique_removeSection)
  next
    case (InitializeQuiz c fetched sid)
    with g show ?thesis by (simp add: unique_initializeQuiz)
  next
    case SaveQuiz
    with u show ?thesis by (simp add: saveQuiz_def)
  next
    case (SaveQuizThen id0 examId)
    with u show ?thesis by (simp add: unique_saveQuizThen)
  next
    case (UpdateQuiz u')
    with u g show ?thesis by (simp add: unique_updateQuiz)
  next
    case (AddQuestionsToSelection ids)
    with u show ?thesis by (simp add: addQuestionsToSelection_def unique_selection)
  next
    case (RemoveQuestionsFromSelection ids)
    with u show ?thesis by (simp add: removeQuestionsFromSelection_def unique_selection)
  next
    case ClearSelectedQuestions
    with u show ?thesis by (simp add: clearSelectedQuestions_def unique_selection)
  next
    case (SetQuestionItemsToReplace its)
    with u show ?thesis by (simp add: setQuestionItemsToReplace_def uniqueItems_sectionItems)
  next
    case (Navigate i)
    with u show ?thesis by (simp add: navigate_def uniqueItems_sectionItems)
  next
    case DeleteActiveSelectedQuestions
    with u show ?thesis by (simp add: unique_deleteActiveSelectedQuestions)
  next
    case (AutoReplaceQuestions its)
    with u g show ?thesis by (simp only: step.simps unique_autoReplaceQuestions)
  qed
qed


theorem uniqueItems_preserved_witness:
  "uniqueItems newQuizState \<and>
   bringsNoDuplicate exampleEnv newQuizState
     (AddQuestionsToSection 0 (Some [questionA, questionB]) (Some [exerciseA, exerciseB]) None) \<and>
   uniqueItems twoQuestionState \<and>
   bringsNoDuplicate exampleEnv twoQuestionState (AutoReplaceQuestions [''E1:a'']) \<and>
   uniqueItems (stateAfter (autoReplaceQuestions exampleEnv twoQuestionState [''E1:a'']))"
proof -
  have u: "uniqueItems newQuizState"
    by (simp add: uniqueItems_sectionItems newQuizState_eq sectionItems_default)
  have g: "bringsNoDuplicate exampleEnv newQuizState
     (AddQuestionsToSection 0 (Some [questionA, questionB]) (Some [exerciseA, exerciseB]) None)"
    by (simp add: newToQuiz_def otherItems_def allSections_def newQuizState_eq
        questionA_def questionB_def)
  from uniqueItems_preserved [of newQuizState exampleEnv
      "AddQuestionsToSection 0 (Some [questionA, questionB]) (Some [exerciseA, exerciseB]) None"]
    u g
  have "uniqueItems (stateAfter (step exampleEnv newQuizState
          (AddQuestionsToSection 0 (Some [questionA, questionB])
             (Some [exerciseA, exerciseB]) None)))"
    by blast
  then have u2: "uniqueItems twoQuestionState"
    by (simp add: twoQuestionState_def)
  have g2: "bringsNoDuplicate exampleEnv twoQuestionState (AutoReplaceQuestions [''E1:a''])"
    by code_simp
  from uniqueItems_preserved [of twoQuestionState exampleEnv "AutoReplaceQuestions [''E1:a'']"]
    u2 g2
  have "uniqueItems (stateAfter (step exampleEnv twoQuestionState
          (AutoReplaceQuestions [''E1:a''])))"
    by blast
  with u g u2 g2 show ?thesis by simp
qed

text \<open>
  The claim as stated fails. A question that is in the first section is added to
  the second section by \<open>addQuestionsToSection\<close>, which compares the given
  questions with those of the target section only; and \<open>updateSection\<close> stores an
  array that holds the same question twice.
\<close>

theorem uniqueItems_counterexample:
  "\<not> isl (run exampleEnv initialState
       [InitializeQuiz ''c1'' None ''s1'', AddSection ''s2'',
        AddQuestionsToSection 0 (Some [questionA]) (Some [exerciseA]) None,
        AddQuestionsToSection 1 (Some [questionA]) (Some [exerciseA]) None]) \<and>
   map item (allQuestionsInQuiz (stateAfter (run exampleEnv initialState
       [InitializeQuiz ''c1'' None ''s1'', AddSection ''s2'',
        AddQuestionsToSection 0 (Some [questionA]) (Some [exerciseA]) None,
        AddQuestionsToSection 1 (Some [questionA]) (Some [exerciseA]) None])))
     = [''E1:a'', ''E1:a''] \<and>
   \<not> isl (run exampleEnv initialState
       [InitializeQuiz ''c1'' None ''s1'',
        UpdateSection 0 (questionsUpdate [questionA, questionA] None)]) \<and>
   map item (allQuestionsInQuiz (stateAfter (run exampleEnv initialState
       [InitializeQuiz ''c1'' None ''s1'',
        UpdateSection 0 (questionsUpdate [questionA, questionA] None)])))
     = [''E1:a'', ''E1:a'']"
  by code_simp

end
